theory Spec2Isabelle
  imports
    Main
    "HOL-Library.Word"
    "HOL-Library.Char_ord"
    "HOL-Library.List_Lexorder"
    "HOL-Library.Sublist"
begin

unbundle bit_operations_syntax

section \<open>SIV: a simple integrity verifier (siv.cpp)\<close>

text \<open>
  The program has two modes. \<open>initialize\<close> walks a directory, writes one tab-separated
  row per entry into a verification file and a summary into a report file. \<open>verify\<close>
  reads a verification file back, walks the directory again, compares the two sets of
  rows and writes the warnings into a report file.

  The operating system is an environment that the functions read: which paths exist,
  the text of the files that are opened for reading, what the recursive directory
  iterator yields, and for each entry what \<open>stat\<close>, \<open>getpwuid\<close>, \<open>getgrgid\<close>,
  \<open>last_write_time\<close> with \<open>strftime\<close>, and the two Crypto++ digests return. Every call of
  \<open>exit(EXIT_FAILURE)\<close>, every uncaught C++ exception and every out-of-bounds vector read
  is a value of the type \<open>error\<close>. What a run does to the outside world is recorded as a
  list of events, in the order of the source.

  An \<open>ofstream\<close> is taken to accept what is written to it, and the two counters of files
  and directories not to overflow. A run that fails is described by its error and by the
  events up to the failure; what it leaves behind in a file that it has opened is not
  described.
\<close>

subsection \<open>Errors and events\<close>

text \<open>
  \<^item> \<open>PathNotFoundError\<close>: "The specified of directory does not exist".
  \<^item> \<open>VerificationFileNotFound\<close>: "The verification file does not exist".
  \<^item> \<open>PathConflictError\<close>: the three messages about the verification file or the report
    file lying inside the monitored directory, or being the same path.
  \<^item> \<open>ReportNotTxt\<close>: "The report file is not a text file with .txt extension".
  \<^item> \<open>UnsupportedAlgorithmError\<close>: "Invalid hash function" in \<open>hashFile\<close>, and
    "Please specify a valid hash function" in \<open>main\<close>.
  \<^item> \<open>UsageError\<close>: the other argument checks of \<open>main\<close>.
  \<^item> \<open>OutOfRangeException\<close>: \<open>std::out_of_range\<close> thrown by \<open>substr\<close> and caught nowhere.
  \<^item> \<open>FilesystemException\<close>: \<open>filesystem_error\<close> thrown by the directory iterator or by
    \<open>last_write_time\<close> and caught nowhere.
  \<^item> \<open>NullDereference\<close>: \<open>pw->pw_name\<close> read through the null pointer that \<open>getpwuid\<close>
    returns for a user it does not find.
  \<^item> \<open>UndefinedBehaviour\<close>: \<open>operator[]\<close> of a vector past its size.
  \<^item> \<open>MalformedSnapshotError\<close>: the error kind of the specification for a snapshot text
    that cannot be decoded. No path of the source produces it.
\<close>

datatype error =
    PathNotFoundError
  | VerificationFileNotFound
  | PathConflictError
  | ReportNotTxt
  | UnsupportedAlgorithmError
  | UsageError
  | OutOfRangeException
  | FilesystemException
  | NullDereference
  | UndefinedBehaviour
  | MalformedSnapshotError

datatype event =
    Exists string        \<comment> \<open>\<open>fs::exists(path)\<close>\<close>
  | OpenRead string      \<comment> \<open>an \<open>ifstream\<close> opened on the verification file\<close>
  | OpenWrite string     \<comment> \<open>an \<open>ofstream\<close> opened with \<open>ios::out\<close>: creates or truncates\<close>
  | Iterate string       \<comment> \<open>\<open>fs::recursive_directory_iterator(path)\<close>\<close>
  | Stat string          \<comment> \<open>\<open>stat\<close> on the path of an entry\<close>
  | ReadContent string   \<comment> \<open>\<open>hashFile\<close> reading the whole file\<close>

subsection \<open>Strings\<close>

definition tab :: char where
  "tab = CHR 0x09"

definition newline :: char where
  "newline = CHR 0x0A"

text \<open>\<open>s.find(t)\<close>: the first position at which \<open>t\<close> occurs in \<open>s\<close>; \<open>None\<close> is \<open>npos\<close>.\<close>

fun find_str :: "string \<Rightarrow> string \<Rightarrow> nat option" where
  "find_str [] t = (if t = [] then Some 0 else None)"
| "find_str (c # s) t =
     (if prefix t (c # s) then Some 0 else map_option Suc (find_str s t))"

text \<open>\<open>s.find(c)\<close> for a character.\<close>

fun find_char :: "string \<Rightarrow> char \<Rightarrow> nat option" where
  "find_char [] c = None"
| "find_char (x # s) c = (if x = c then Some 0 else map_option Suc (find_char s c))"

text \<open>\<open>s.substr(pos)\<close>: throws \<open>std::out_of_range\<close> when \<open>pos > s.size()\<close>.\<close>

definition substr :: "string \<Rightarrow> nat \<Rightarrow> error + string" where
  "substr s pos = (if pos > length s then Inl OutOfRangeException else Inr (drop pos s))"

text \<open>\<open>s.substr(0, n)\<close> with \<open>n\<close> the result of a \<open>find\<close>; position 0 is never out of range,
  and the count \<open>npos\<close> takes the whole string.\<close>

definition substr0 :: "string \<Rightarrow> nat option \<Rightarrow> string" where
  "substr0 s n = (case n of None \<Rightarrow> s | Some k \<Rightarrow> take k s)"

text \<open>\<open>to_string\<close> of a non-negative integer, and \<open>operator<<\<close> after \<open>oct\<close>.\<close>

definition digit :: "nat \<Rightarrow> char" where
  "digit d = ''0123456789'' ! d"

function to_string :: "nat \<Rightarrow> string" where
  "to_string n = (if n < 10 then [digit n] else to_string (n div 10) @ [digit (n mod 10)])"
  by pat_completeness auto
termination
  by (relation "measure id") auto

function oct_string :: "nat \<Rightarrow> string" where
  "oct_string n = (if n < 8 then [digit n] else oct_string (n div 8) @ [digit (n mod 8)])"
  by pat_completeness auto
termination
  by (relation "measure id") auto

declare to_string.simps [simp del]
declare oct_string.simps [simp del]

text \<open>The splitting loop of \<open>verify\<close>: \<open>temp\<close> collects the characters of the current
  field, a tab pushes it, and the last field is pushed after the loop.\<close>

fun split_loop :: "string \<Rightarrow> string \<Rightarrow> string list" where
  "split_loop [] temp = [temp]"
| "split_loop (c # cs) temp =
     (if c = tab then temp # split_loop cs [] else split_loop cs (temp @ [c]))"

definition split_tab :: "string \<Rightarrow> string list" where
  "split_tab line = split_loop line []"

subsection \<open>The environment\<close>

text \<open>
  The global \<open>struct stat info\<close>, of which the source reads the size, the user, the group
  and the mode. \<open>st_size\<close> is an \<open>off_t\<close> that is never negative, \<open>st_mode\<close> is the 32-bit
  \<open>mode_t\<close>. As an object at namespace scope it starts with every field zero.
\<close>

record stat_buf =
  st_size :: nat
  st_uid :: nat
  st_gid :: nat
  st_mode :: "32 word"

definition zero_info :: stat_buf where
  "zero_info = \<lparr>st_size = 0, st_uid = 0, st_gid = 0, st_mode = 0\<rparr>"

text \<open>
  One entry of the directory walk, with what the calls of \<open>createTsvString\<close> return for
  it. \<open>stat_result\<close> is what \<open>stat\<close> stores for the path, \<open>None\<close> when \<open>stat\<close> fails (a
  dangling link, say). \<open>last_write\<close> is the text that \<open>strftime\<close> produces with the format
  \<open>%Y-%m-%d %H:%M:%S\<close> from \<open>gmtime\<close> of the last write time, \<open>None\<close> when
  \<open>last_write_time\<close> throws. \<open>content\<close> is what the \<open>ifstream\<close> of \<open>hashFile\<close> delivers, the
  empty string for a file that cannot be opened.
\<close>

record dir_entry =
  entry_path :: string
  stat_result :: "stat_buf option"
  last_write :: "string option"
  is_directory :: bool
  content :: string

text \<open>
  The rest of the environment: the two digests of Crypto++ followed by the \<open>HexEncoder\<close>,
  \<open>fs::exists\<close>, the text behind an \<open>ifstream\<close> (\<open>None\<close> when the file cannot be opened),
  the walk of \<open>fs::recursive_directory_iterator\<close>, and the names that \<open>getpwuid\<close> and
  \<open>getgrgid\<close> find for a user and a group (\<open>None\<close> for the null pointer). A walk is
  \<open>None\<close> when the constructor of the iterator throws; otherwise it is the list of the
  entries that the iterator yields, in the order of the operating system, together with
  a truth value: true when the iteration ends after the last of them, false when the
  increment after the last of them throws \<open>filesystem_error\<close> (a directory that cannot be
  entered, say). The walk is fixed for a run: a file that the run itself creates does not
  enter it.
\<close>

record world =
  md5_hex :: "string \<Rightarrow> string"
  sha1_hex :: "string \<Rightarrow> string"
  fs_exists :: "string \<Rightarrow> bool"
  file_text :: "string \<Rightarrow> string option"
  walk :: "string \<Rightarrow> (dir_entry list \<times> bool) option"
  getpwuid :: "nat \<Rightarrow> string option"
  getgrgid :: "nat \<Rightarrow> string option"

subsection \<open>hashFile and createTsvString\<close>

text \<open>\<open>hashFile\<close> opens and reads the file first and looks at the name of the hash
  function afterwards.\<close>

definition hashFile :: "world \<Rightarrow> dir_entry \<Rightarrow> string \<Rightarrow> event list \<times> (error + string)" where
  "hashFile w e hashF =
     ([ReadContent (entry_path e)],
      if hashF = ''md5'' then Inr (md5_hex w (content e))
      else if hashF = ''sha1'' then Inr (sha1_hex w (content e))
      else Inl UnsupportedAlgorithmError)"

text \<open>\<open>S_IRWXU | S_IRWXG | S_IRWXO\<close> is octal 777.\<close>

definition access_rights :: "32 word \<Rightarrow> nat" where
  "access_rights m = unat (m AND 511)"

text \<open>\<open>stat(path, &info)\<close>: the source ignores the return value, so after a call that
  fails the global still holds what the call before left in it.\<close>

definition stat_call :: "stat_buf \<Rightarrow> dir_entry \<Rightarrow> stat_buf" where
  "stat_call info e = (case stat_result e of Some s \<Rightarrow> s | None \<Rightarrow> info)"

text \<open>
  The row of one entry, built field by field as the source does; the first argument is
  the global \<open>info\<close> before the call, the second component of the result the global after
  it. The name of the owner is read through the pointer that \<open>getpwuid\<close> returns, without
  a test. After the source has fetched the group entry \<open>gr\<close> it appends \<open>pw->pw_name\<close>
  again. \<open>last_write_time\<close> comes after the access rights and before \<open>hashFile\<close>.
\<close>

definition createTsvString ::
  "world \<Rightarrow> stat_buf \<Rightarrow> dir_entry \<Rightarrow> string \<Rightarrow> event list \<times> stat_buf \<times> (error + string)" where
  "createTsvString w info0 e hashF =
     (let info = stat_call info0 e;
          line = entry_path e @ [tab];
          line = line @ to_string (st_size info) @ [tab];
          pw = getpwuid w (st_uid info)
      in case pw of
           None \<Rightarrow> ([Stat (entry_path e)], info, Inl NullDereference)
         | Some pw_name \<Rightarrow>
            (let line = line @ pw_name;
                 line = line @ [tab];
                 gr = getgrgid w (st_gid info);
                 line = line @ pw_name;
                 line = line @ [tab];
                 line = line @ oct_string (access_rights (st_mode info)) @ [tab]
             in case last_write e of
                  None \<Rightarrow> ([Stat (entry_path e)], info, Inl FilesystemException)
                | Some date \<Rightarrow>
                   (let line = line @ date;
                        line = line @ [tab]
                    in if \<not> is_directory e
                       then (case hashFile w e hashF of
                               (evs, Inl err) \<Rightarrow> (Stat (entry_path e) # evs, info, Inl err)
                             | (evs, Inr h) \<Rightarrow>
                                 (Stat (entry_path e) # evs, info, Inr (line @ h @ [newline])))
                       else ([Stat (entry_path e)], info,
                             Inr (line @ ''directory'' @ [newline])))))"

subsection \<open>std::map\<close>

text \<open>
  A \<open>std::map<string, string>\<close> is the list of its items in the order of iteration, which
  is the ascending order of the keys. \<open>std::string\<close> compares byte by byte, a proper
  prefix being smaller, which is the lexicographic order of \<open>char list\<close>.
  \<open>assign k v d\<close> is \<open>d[k] = v\<close>; \<open>map_of d k\<close> is \<open>d.find(k)\<close>; \<open>dict_at d k\<close> is the value of
  the expression \<open>d[k]\<close>, the empty string for a key that is absent.
\<close>

type_synonym dict = "(string \<times> string) list"

fun assign :: "string \<Rightarrow> string \<Rightarrow> dict \<Rightarrow> dict" where
  "assign k v [] = [(k, v)]"
| "assign k v ((k', v') # d) =
     (if k < k' then (k, v) # (k', v') # d
      else if k = k' then (k, v) # d
      else (k', v') # assign k v d)"

definition dict_at :: "dict \<Rightarrow> string \<Rightarrow> string" where
  "dict_at d k = (case map_of d k of Some v \<Rightarrow> v | None \<Rightarrow> [])"

subsection \<open>Reading the verification file\<close>

text \<open>
  An input stream: the characters not yet read, and whether the stream is still good
  (neither \<open>eofbit\<close> nor \<open>failbit\<close> set). \<open>getline\<close> on a stream that is not good leaves the
  string as it is and fails. On a good stream it clears the string and reads up to the
  next newline, which it consumes; reaching the end of the file sets \<open>eofbit\<close>, and
  \<open>failbit\<close> too when no character was read. The first component of the result is the
  stream's truth value after the call.
\<close>

record istream =
  unread :: string
  good :: bool

definition open_read :: "world \<Rightarrow> string \<Rightarrow> istream" where
  "open_read w p =
     (case file_text w p of
        None \<Rightarrow> \<lparr>unread = [], good = False\<rparr>
      | Some t \<Rightarrow> \<lparr>unread = t, good = True\<rparr>)"

definition getline :: "istream \<Rightarrow> string \<Rightarrow> bool \<times> string \<times> istream" where
  "getline s line =
     (if \<not> good s then (False, line, s)
      else (let l = takeWhile (\<lambda>c. c \<noteq> newline) (unread s);
                r = dropWhile (\<lambda>c. c \<noteq> newline) (unread s)
            in if r = [] then (l \<noteq> [], l, \<lparr>unread = [], good = False\<rparr>)
               else (True, l, \<lparr>unread = tl r, good = True\<rparr>)))"

text \<open>The four header lines of \<open>verify\<close>: the title is skipped, the directory is what
  follows the first 11 characters of the second line, the hash function what follows the
  first 15 characters of the third, the column line is skipped.\<close>

definition read_header :: "istream \<Rightarrow> error + (string \<times> string \<times> string \<times> istream)" where
  "read_header s0 =
     (let (ok1, line1, s1) = getline s0 [];
          (ok2, line2, s2) = getline s1 line1
      in case substr line2 11 of
           Inl e \<Rightarrow> Inl e
         | Inr dirPath \<Rightarrow>
            (let (ok3, line3, s3) = getline s2 line2
             in case substr line3 15 of
                  Inl e \<Rightarrow> Inl e
                | Inr hashF \<Rightarrow>
                   (let (ok4, line4, s4) = getline s3 line3
                    in Inr (dirPath, hashF, line4, s4))))"

text \<open>The loop \<open>while (getline(vFile, line))\<close> that fills \<open>vFileDict\<close>: the key of a
  line is what precedes its first tab, the whole line when it has none.\<close>

function read_rows :: "istream \<Rightarrow> string \<Rightarrow> dict \<Rightarrow> dict" where
  "read_rows s line vFileDict =
     (case getline s line of
        (True, line', s') \<Rightarrow>
          read_rows s' line' (assign (substr0 line' (find_char line' tab)) line' vFileDict)
      | (False, _, _) \<Rightarrow> vFileDict)"
  by pat_completeness auto
termination
  apply (relation "measure (\<lambda>(s, line, d). length (unread s) + (if good s then 1 else 0))")
   apply simp
  subgoal for s line vFileDict x b y line'
    using length_dropWhile_le [of "\<lambda>c. c \<noteq> newline" "unread s"]
    by (cases "dropWhile (\<lambda>c. c \<noteq> newline) (unread s)")
       (auto simp: getline_def Let_def split: if_splits)
  done

declare read_rows.simps [simp del]

text \<open>The decoding part of \<open>verify\<close>: the header, then the rows.\<close>

definition decode :: "istream \<Rightarrow> error + (string \<times> string \<times> dict)" where
  "decode s =
     (case read_header s of
        Inl e \<Rightarrow> Inl e
      | Inr (dirPath, hashF, line, s') \<Rightarrow> Inr (dirPath, hashF, read_rows s' line []))"

subsection \<open>The checks on the paths\<close>

text \<open>\<open>initialize\<close> and \<open>verify\<close> contain the same four checks, in this order.\<close>

definition check_paths :: "string \<Rightarrow> string \<Rightarrow> string \<Rightarrow> error option" where
  "check_paths dirPath vFilePath rFilePath =
     (if find_str vFilePath dirPath \<noteq> None then Some PathConflictError
      else if find_str rFilePath dirPath \<noteq> None then Some PathConflictError
      else if vFilePath = rFilePath then Some PathConflictError
      else if find_str rFilePath ''.txt'' = None then Some ReportNotTxt
      else None)"

subsection \<open>initialize\<close>

definition endl :: string where
  "endl = [newline]"

text \<open>The four header lines that \<open>initialize\<close> writes into the verification file.\<close>

definition vfile_header :: "string \<Rightarrow> string \<Rightarrow> string" where
  "vfile_header dirPath hashF =
     ''SIV Verification File'' @ endl @
     ''Directory: '' @ dirPath @ endl @
     ''Hash Function: '' @ hashF @ endl @
     ''File Name'' @ [tab] @ ''File Size'' @ [tab] @ ''Owner'' @ [tab] @ ''Group'' @ [tab] @
     ''Access Rights'' @ [tab] @ ''Last Modified'' @ [tab] @ ''Hash'' @ endl"

text \<open>
  The loop of \<open>initialize\<close> over the entries of the walk: each row is appended to the
  text of the verification file and the entry is counted. The counters are \<open>int\<close>s in the
  source and natural numbers here. The global \<open>info\<close> goes from one call of
  \<open>createTsvString\<close> to the next. A failing \<open>createTsvString\<close> ends the run.
\<close>

fun init_loop ::
  "world \<Rightarrow> string \<Rightarrow> stat_buf \<Rightarrow> dir_entry list \<Rightarrow> string \<times> nat \<times> nat \<Rightarrow>
   event list \<times> (error + string \<times> nat \<times> nat)" where
  "init_loop w hashF info [] acc = ([], Inr acc)"
| "init_loop w hashF info (e # es) (vFile, fileNum, dirNum) =
     (case createTsvString w info e hashF of
        (evs, info', Inl err) \<Rightarrow> (evs, Inl err)
      | (evs, info', Inr row) \<Rightarrow>
          (case init_loop w hashF info' es
                  (vFile @ row,
                   if is_directory e then fileNum else Suc fileNum,
                   if is_directory e then Suc dirNum else dirNum) of
             (evs', r) \<Rightarrow> (evs @ evs', r)))"

definition init_report ::
  "string \<Rightarrow> string \<Rightarrow> nat \<Rightarrow> nat \<Rightarrow> string \<Rightarrow> nat \<Rightarrow> string" where
  "init_report dirPath vFilePath fileNum dirNum hashF seconds =
     ''SIV Report File'' @ endl @
     ''Directory: '' @ dirPath @ endl @
     ''Verification File: '' @ vFilePath @ endl @
     ''Number of parsed Files: '' @ to_string fileNum @ endl @
     ''Number of parsed Directories: '' @ to_string dirNum @ endl @
     ''Hash Function: '' @ hashF @ endl @
     ''Time of Initialization (in seconds): '' @ to_string seconds @ endl"

text \<open>
  \<open>initialize\<close>. \<open>seconds\<close> is the reading of the clock at the end, in whole seconds since
  the start. A run that succeeds returns the text of the verification file and the text
  of the report file.
\<close>

definition initialize ::
  "world \<Rightarrow> nat \<Rightarrow> string \<Rightarrow> string \<Rightarrow> string \<Rightarrow> string \<Rightarrow>
   event list \<times> (error + string \<times> string)" where
  "initialize w seconds dirPath vFilePath rFilePath hashF =
     (if \<not> fs_exists w dirPath then ([Exists dirPath], Inl PathNotFoundError)
      else case check_paths dirPath vFilePath rFilePath of
        Some err \<Rightarrow> ([Exists dirPath], Inl err)
      | None \<Rightarrow>
         (case walk w dirPath of
            None \<Rightarrow>
              ([Exists dirPath, OpenWrite vFilePath, Iterate dirPath], Inl FilesystemException)
          | Some (entries, complete) \<Rightarrow>
             (case init_loop w hashF zero_info entries (vfile_header dirPath hashF, 0, 0) of
                (evs, Inl err) \<Rightarrow>
                  ([Exists dirPath, OpenWrite vFilePath, Iterate dirPath] @ evs, Inl err)
              | (evs, Inr (vFile, fileNum, dirNum)) \<Rightarrow>
                  if \<not> complete
                  then ([Exists dirPath, OpenWrite vFilePath, Iterate dirPath] @ evs,
                        Inl FilesystemException)
                  else
                    ([Exists dirPath, OpenWrite vFilePath, Iterate dirPath] @ evs @
                     [OpenWrite rFilePath],
                     Inr (vFile, init_report dirPath vFilePath fileNum dirNum hashF seconds)))))"

subsection \<open>verify\<close>

text \<open>
  The loop of \<open>verify\<close> over the entries of the walk: the row of an entry, with every
  newline character erased, is stored under the path of the entry.
\<close>

fun verify_loop ::
  "world \<Rightarrow> string \<Rightarrow> stat_buf \<Rightarrow> dir_entry list \<Rightarrow> dict \<times> nat \<times> nat \<Rightarrow>
   event list \<times> (error + dict \<times> nat \<times> nat)" where
  "verify_loop w hashF info [] acc = ([], Inr acc)"
| "verify_loop w hashF info (e # es) (dirFileDict, fileNum, dirNum) =
     (case createTsvString w info e hashF of
        (evs, info', Inl err) \<Rightarrow> (evs, Inl err)
      | (evs, info', Inr row) \<Rightarrow>
          (case verify_loop w hashF info' es
                  (assign (entry_path e) (filter (\<lambda>c. c \<noteq> newline) row) dirFileDict,
                   if is_directory e then fileNum else Suc fileNum,
                   if is_directory e then Suc dirNum else dirNum) of
             (evs', r) \<Rightarrow> (evs @ evs', r)))"

text \<open>
  The comparison of the two dictionaries. The first loop runs over \<open>vFileDict\<close> in the
  order of its keys and pushes a name onto \<open>changedFiles\<close> when the other dictionary has the
  name with a different line, onto \<open>deletedFiles\<close> when it does not have the name. The
  second loop runs over \<open>dirFileDict\<close> and pushes the names that \<open>vFileDict\<close> does not have.
\<close>

definition changedFiles :: "dict \<Rightarrow> dict \<Rightarrow> string list" where
  "changedFiles vFileDict dirFileDict =
     map fst (filter (\<lambda>(fileName, vFileLine).
                 case map_of dirFileDict fileName of
                   Some dirFileLine \<Rightarrow> vFileLine \<noteq> dirFileLine
                 | None \<Rightarrow> False) vFileDict)"

definition deletedFiles :: "dict \<Rightarrow> dict \<Rightarrow> string list" where
  "deletedFiles vFileDict dirFileDict =
     map fst (filter (\<lambda>(fileName, vFileLine). map_of dirFileDict fileName = None) vFileDict)"

definition newFiles :: "dict \<Rightarrow> dict \<Rightarrow> string list" where
  "newFiles vFileDict dirFileDict =
     map fst (filter (\<lambda>(fileName, dirFileLine). map_of vFileDict fileName = None) dirFileDict)"

text \<open>
  The six comparisons of a changed file, on the two split lines. The source reads the
  positions 1 to 6 of both vectors with \<open>operator[]\<close>, which is undefined when a vector
  has fewer than 7 elements.
\<close>

definition field_warnings :: "string \<Rightarrow> string list \<Rightarrow> string list \<Rightarrow> error + string list" where
  "field_warnings fileName v d =
     (if length v < 7 \<or> length d < 7 then Inl UndefinedBehaviour
      else Inr
       ((if v ! 1 \<noteq> d ! 1
         then [fileName @ '' file size is different: '' @ v ! 1 @ '' '' @ d ! 1] else []) @
        (if v ! 2 \<noteq> d ! 2
         then [fileName @ '' owner is different: '' @ v ! 2 @ '' '' @ d ! 2] else []) @
        (if v ! 3 \<noteq> d ! 3
         then [fileName @ '' group is different: '' @ v ! 3 @ '' '' @ d ! 3] else []) @
        (if v ! 4 \<noteq> d ! 4
         then [fileName @ '' access rights are different: '' @ v ! 4 @ '' '' @ d ! 4] else []) @
        (if v ! 5 \<noteq> d ! 5
         then [fileName @ '' last modified time is different: '' @ v ! 5 @ '' '' @ d ! 5] else []) @
        (if v ! 6 \<noteq> d ! 6
         then [fileName @ '' hash is different: '' @ v ! 6 @ '' '' @ d ! 6] else [])))"

text \<open>The warnings of one changed file: both lines are fetched with \<open>operator[]\<close> of the
  dictionaries and split at the tabs.\<close>

definition changed_warnings :: "dict \<Rightarrow> dict \<Rightarrow> string \<Rightarrow> error + string list" where
  "changed_warnings vFileDict dirFileDict fileName =
     field_warnings fileName
       (split_tab (dict_at vFileDict fileName)) (split_tab (dict_at dirFileDict fileName))"

text \<open>The loop over \<open>changedFiles\<close>.\<close>

fun changed_loop :: "dict \<Rightarrow> dict \<Rightarrow> string list \<Rightarrow> error + string list" where
  "changed_loop vFileDict dirFileDict [] = Inr []"
| "changed_loop vFileDict dirFileDict (fileName # rest) =
     (case changed_warnings vFileDict dirFileDict fileName of
        Inl err \<Rightarrow> Inl err
      | Inr ws \<Rightarrow>
         (case changed_loop vFileDict dirFileDict rest of
            Inl err \<Rightarrow> Inl err
          | Inr ws' \<Rightarrow> Inr (ws @ ws')))"

text \<open>The vector \<open>warnings\<close>: the deleted files, the new files, then the changed files.\<close>

definition warnings :: "dict \<Rightarrow> dict \<Rightarrow> error + string list" where
  "warnings vFileDict dirFileDict =
     (case changed_loop vFileDict dirFileDict (changedFiles vFileDict dirFileDict) of
        Inl err \<Rightarrow> Inl err
      | Inr ws \<Rightarrow>
          Inr (map (\<lambda>f. f @ '' is deleted'') (deletedFiles vFileDict dirFileDict) @
               map (\<lambda>f. f @ '' is new'') (newFiles vFileDict dirFileDict) @
               ws))"

definition verify_report ::
  "string \<Rightarrow> string \<Rightarrow> string \<Rightarrow> nat \<Rightarrow> nat \<Rightarrow> nat \<Rightarrow> nat \<Rightarrow> nat \<Rightarrow> string list \<Rightarrow> string" where
  "verify_report dirPath vFilePath hashF fileNum dirNum deleted new changed ws =
     ''SIV Report File'' @ endl @
     ''Directory: '' @ dirPath @ endl @
     ''Verification File: '' @ vFilePath @ endl @
     ''Hash Function: '' @ hashF @ endl @
     ''Number of Parsed Files: '' @ to_string fileNum @ endl @
     ''Number of Parsed Directories: '' @ to_string dirNum @ endl @
     ''Number of Deleted Files: '' @ to_string deleted @ endl @
     ''Number of New Files: '' @ to_string new @ endl @
     ''Number of Changed Files: '' @ to_string changed @ endl @
     ''Warnings:'' @ endl @
     concat (map (\<lambda>w. w @ endl) ws)"

text \<open>\<open>verify\<close>. A run that succeeds returns the text of the report file.\<close>

definition verify :: "world \<Rightarrow> string \<Rightarrow> string \<Rightarrow> event list \<times> (error + string)" where
  "verify w vFilePath rFilePath =
     (if \<not> fs_exists w vFilePath then ([Exists vFilePath], Inl VerificationFileNotFound)
      else case read_header (open_read w vFilePath) of
        Inl err \<Rightarrow> ([Exists vFilePath, OpenRead vFilePath], Inl err)
      | Inr (dirPath, hashF, line, vFile) \<Rightarrow>
         (case check_paths dirPath vFilePath rFilePath of
            Some err \<Rightarrow> ([Exists vFilePath, OpenRead vFilePath], Inl err)
          | None \<Rightarrow>
             (let vFileDict = read_rows vFile line []
              in case walk w dirPath of
                   None \<Rightarrow>
                     ([Exists vFilePath, OpenRead vFilePath, Iterate dirPath],
                      Inl FilesystemException)
                 | Some (entries, complete) \<Rightarrow>
                    (case verify_loop w hashF zero_info entries ([], 0, 0) of
                       (evs, Inl err) \<Rightarrow>
                         ([Exists vFilePath, OpenRead vFilePath, Iterate dirPath] @ evs, Inl err)
                     | (evs, Inr (dirFileDict, fileNum, dirNum)) \<Rightarrow>
                        if \<not> complete
                        then ([Exists vFilePath, OpenRead vFilePath, Iterate dirPath] @ evs,
                              Inl FilesystemException)
                        else
                        (case warnings vFileDict dirFileDict of
                           Inl err \<Rightarrow>
                             ([Exists vFilePath, OpenRead vFilePath, Iterate dirPath] @ evs,
                              Inl err)
                         | Inr ws \<Rightarrow>
                             ([Exists vFilePath, OpenRead vFilePath, Iterate dirPath] @ evs @
                              [OpenWrite rFilePath],
                              Inr (verify_report dirPath vFilePath hashF fileNum dirNum
                                     (length (deletedFiles vFileDict dirFileDict))
                                     (length (newFiles vFileDict dirFileDict))
                                     (length (changedFiles vFileDict dirFileDict)) ws)))))))"

subsection \<open>main\<close>

text \<open>
  The variables of \<open>main\<close> as \<open>getopt\<close> leaves them: the mode is 0 when no mode was given, 1 for \<open>-i\<close>,
  2 for \<open>-v\<close>, 3 for \<open>-h\<close>; an option that was not given is the empty string.
\<close>

record options =
  opt_mode :: nat
  opt_dirPath :: string
  opt_vFilePath :: string
  opt_rFilePath :: string
  opt_hashF :: string

datatype outcome =
    Help
  | Initialized string string
  | Verified string

definition main :: "world \<Rightarrow> nat \<Rightarrow> options \<Rightarrow> event list \<times> (error + outcome)" where
  "main w seconds opts =
     (if opt_mode opts = 0 then ([], Inl UsageError)
      else if opt_mode opts = 1 \<and> opt_dirPath opts = [] then ([], Inl UsageError)
      else if opt_mode opts = 1 \<and> opt_vFilePath opts = [] then ([], Inl UsageError)
      else if opt_mode opts = 1 \<and> opt_rFilePath opts = [] then ([], Inl UsageError)
      else if opt_mode opts = 1 \<and> opt_hashF opts = [] then ([], Inl UsageError)
      else if opt_mode opts = 2 \<and> opt_vFilePath opts = [] then ([], Inl UsageError)
      else if opt_mode opts = 2 \<and> opt_rFilePath opts = [] then ([], Inl UsageError)
      else if opt_mode opts = 1 \<and> opt_hashF opts \<noteq> ''md5'' \<and> opt_hashF opts \<noteq> ''sha1''
        then ([], Inl UnsupportedAlgorithmError)
      else if opt_mode opts \<noteq> 1 \<and> opt_mode opts \<noteq> 2 \<and> opt_mode opts \<noteq> 3 then ([], Inl UsageError)
      else if opt_mode opts = 3 then ([], Inr Help)
      else if opt_mode opts = 1 then
        (case initialize w seconds (opt_dirPath opts) (opt_vFilePath opts) (opt_rFilePath opts) (opt_hashF opts) of
           (evs, Inl err) \<Rightarrow> (evs, Inl err)
         | (evs, Inr (vFile, rFile)) \<Rightarrow> (evs, Inr (Initialized vFile rFile)))
      else
        (case verify w (opt_vFilePath opts) (opt_rFilePath opts) of
           (evs, Inl err) \<Rightarrow> (evs, Inl err)
         | (evs, Inr rFile) \<Rightarrow> (evs, Inr (Verified rFile))))"

subsection \<open>Snapshots as the specification describes them\<close>

text \<open>
  The specification speaks of a snapshot: the monitored directory, the name of the hash
  function, and one record of 7 text fields per entry (path, size, owner, group, access
  rights, last modification, digest). The source has no such type; it has the text of
  the verification file and the dictionaries of lines. \<open>join_tab\<close> is the line of a
  record and \<open>encode\<close> the text of a verification file whose rows are these lines, under
  the header that \<open>initialize\<close> writes. \<open>captured_fields\<close> lists the 7 fields that
  \<open>createTsvString\<close> puts into the row of an entry when it returns one, given the global
  \<open>info\<close> before the call, and \<open>captured_records\<close> the fields of the entries of a walk.
\<close>

record snapshot =
  monitored_dir :: string
  hash_name :: string
  records :: "string list list"

fun join_tab :: "string list \<Rightarrow> string" where
  "join_tab [] = []"
| "join_tab [f] = f"
| "join_tab (f # g # fs) = f @ tab # join_tab (g # fs)"

definition encode :: "snapshot \<Rightarrow> string" where
  "encode s =
     vfile_header (monitored_dir s) (hash_name s) @
     concat (map (\<lambda>fs. join_tab fs @ [newline]) (records s))"

definition text_stream :: "string \<Rightarrow> istream" where
  "text_stream t = \<lparr>unread = t, good = True\<rparr>"

definition digest_field :: "world \<Rightarrow> dir_entry \<Rightarrow> string \<Rightarrow> string" where
  "digest_field w e hashF =
     (if is_directory e then ''directory''
      else if hashF = ''md5'' then md5_hex w (content e)
      else sha1_hex w (content e))"

definition captured_fields :: "world \<Rightarrow> stat_buf \<Rightarrow> dir_entry \<Rightarrow> string \<Rightarrow> string list" where
  "captured_fields w info0 e hashF =
     (let info = stat_call info0 e;
          owner = (case getpwuid w (st_uid info) of Some n \<Rightarrow> n | None \<Rightarrow> []);
          date = (case last_write e of Some d \<Rightarrow> d | None \<Rightarrow> [])
      in [entry_path e, to_string (st_size info), owner, owner,
          oct_string (access_rights (st_mode info)), date, digest_field w e hashF])"

fun captured_records :: "world \<Rightarrow> stat_buf \<Rightarrow> dir_entry list \<Rightarrow> string \<Rightarrow> string list list" where
  "captured_records w info [] hashF = []"
| "captured_records w info (e # es) hashF =
     captured_fields w info e hashF # captured_records w (stat_call info e) es hashF"

text \<open>
  The entries of a list can be examined when, one after the other, the owner of each is
  found by \<open>getpwuid\<close> and its last write time can be read.
\<close>

fun examined :: "world \<Rightarrow> stat_buf \<Rightarrow> dir_entry list \<Rightarrow> bool" where
  "examined w info [] = True"
| "examined w info (e # es) =
     (getpwuid w (st_uid (stat_call info e)) \<noteq> None \<and> last_write e \<noteq> None \<and>
      examined w (stat_call info e) es)"

text \<open>
  What the specification calls a sub-path of the monitored directory: a path whose
  components, those that are empty or a single dot left out, begin with the components
  of the directory.
\<close>

fun slash_loop :: "string \<Rightarrow> string \<Rightarrow> string list" where
  "slash_loop [] temp = [temp]"
| "slash_loop (c # cs) temp =
     (if c = CHR ''/'' then temp # slash_loop cs [] else slash_loop cs (temp @ [c]))"

definition path_components :: "string \<Rightarrow> string list" where
  "path_components p = filter (\<lambda>c. c \<noteq> [] \<and> c \<noteq> ''.'') (slash_loop p [])"

definition sub_path :: "string \<Rightarrow> string \<Rightarrow> bool" where
  "sub_path dir p = prefix (path_components dir) (path_components p)"

text \<open>
  The records that a dictionary of lines holds: each line split at its tabs, as the
  comparison of \<open>verify\<close> splits it. \<open>decode_snapshot\<close> is the decoding of \<open>verify\<close>
  followed by this splitting.
\<close>

definition decoded_records :: "dict \<Rightarrow> string list list" where
  "decoded_records d = map (\<lambda>(k, l). split_tab l) d"

definition decode_snapshot :: "string \<Rightarrow> error + snapshot" where
  "decode_snapshot t =
     (case decode (text_stream t) of
        Inl e \<Rightarrow> Inl e
      | Inr (dirPath, hashF, d) \<Rightarrow>
          Inr \<lparr>monitored_dir = dirPath, hash_name = hashF, records = decoded_records d\<rparr>)"

text \<open>A dictionary is reached from the empty one by a sequence of assignments.\<close>

definition dict_of :: "(string \<times> string) list \<Rightarrow> dict" where
  "dict_of kvs = fold (\<lambda>(k, v). assign k v) kvs []"

text \<open>The key under which the reading loop of \<open>verify\<close> stores a line.\<close>

definition line_key :: "string \<Rightarrow> string" where
  "line_key line = substr0 line (find_char line tab)"

text \<open>A dictionary holds a snapshot when each of its lines has exactly 7 tab-separated
  fields, the first of which is the key of the line.\<close>

definition snapshot_rows :: "dict \<Rightarrow> bool" where
  "snapshot_rows d = list_all (\<lambda>(k, l). length (split_tab l) = 7 \<and> hd (split_tab l) = k) d"

text \<open>The six messages that the comparison of a changed file can push, in the order of
  the source: size, owner, group, access rights, last modification, hash.\<close>

definition all_field_messages :: "string \<Rightarrow> string list \<Rightarrow> string list \<Rightarrow> string list" where
  "all_field_messages fileName v d =
     [fileName @ '' file size is different: '' @ v ! 1 @ '' '' @ d ! 1,
      fileName @ '' owner is different: '' @ v ! 2 @ '' '' @ d ! 2,
      fileName @ '' group is different: '' @ v ! 3 @ '' '' @ d ! 3,
      fileName @ '' access rights are different: '' @ v ! 4 @ '' '' @ d ! 4,
      fileName @ '' last modified time is different: '' @ v ! 5 @ '' '' @ d ! 5,
      fileName @ '' hash is different: '' @ v ! 6 @ '' '' @ d ! 6]"

text \<open>Of the six messages, those of the fields in which the two split lines differ.\<close>

definition differing_messages :: "string \<Rightarrow> string list \<Rightarrow> string list \<Rightarrow> string list" where
  "differing_messages fileName v d =
     map snd (filter (\<lambda>(i, msg). v ! i \<noteq> d ! i)
                (zip [1, 2, 3, 4, 5, 6] (all_field_messages fileName v d)))"

subsection \<open>A small file system for the examples\<close>

text \<open>Stand-ins for the two digests: they tell the content \<open>hello\<close> from any other.\<close>

definition example_md5 :: "string \<Rightarrow> string" where
  "example_md5 c =
     (if c = ''hello'' then ''5D41402ABC4B2A76B9719D911017C592''
      else ''7D793037A0760186574B0282F2F435E7'')"

definition example_sha1 :: "string \<Rightarrow> string" where
  "example_sha1 c =
     (if c = ''hello'' then ''AAF4C61DDCC5E8A2DABEDE0F3B482CD9AEA9434D''
      else ''C4D871AD13AD00FDE9A7BB7FF7ED2543AEC54241'')"

definition example_subdir :: dir_entry where
  "example_subdir =
     \<lparr>entry_path = ''/data/sub'',
      stat_result = Some \<lparr>st_size = 4096, st_uid = 1000, st_gid = 50, st_mode = 0x41ED\<rparr>,
      last_write = Some ''2022-01-08 09:00:00'',
      is_directory = True, content = []\<rparr>"

definition example_file :: dir_entry where
  "example_file =
     \<lparr>entry_path = ''/data/sub/f'',
      stat_result = Some \<lparr>st_size = 1234, st_uid = 1000, st_gid = 50, st_mode = 0x81A4\<rparr>,
      last_write = Some ''2022-01-08 10:00:00'',
      is_directory = False, content = ''hello''\<rparr>"

text \<open>The directory \<open>/data\<close> holds a directory and a file, which belong to the user
  \<open>alice\<close> (1000) and the group \<open>staff\<close> (50). Three verification files exist, each with a
  header only: one outside the directory, one that names a hash function the program
  does not know, one inside the directory.\<close>

definition example_world :: world where
  "example_world =
     \<lparr>md5_hex = example_md5,
      sha1_hex = example_sha1,
      fs_exists = (\<lambda>p. p = ''/data'' \<or> p = ''/backup/snap.tsv'' \<or>
                        p = ''/backup/sha256.tsv'' \<or> p = ''/data/snap.tsv''),
      file_text = (\<lambda>p.
        if p = ''/backup/snap.tsv'' then Some (vfile_header ''/data'' ''md5'')
        else if p = ''/backup/sha256.tsv'' then Some (vfile_header ''/data'' ''sha256'')
        else if p = ''/data/snap.tsv'' then Some (vfile_header ''/data'' ''md5'')
        else None),
      walk = (\<lambda>p. if p = ''/data'' then Some ([example_subdir, example_file], True) else None),
      getpwuid = (\<lambda>u. if u = 1000 then Some ''alice'' else None),
      getgrgid = (\<lambda>g. if g = 50 then Some ''staff'' else None)\<rparr>"

text \<open>An empty directory \<open>/data\<close>, named on the command line as \<open>/data/.\<close>.\<close>

definition dot_world :: world where
  "dot_world =
     example_world
       \<lparr>fs_exists := (\<lambda>p. p = ''/data'' \<or> p = ''/data/.''),
        file_text := (\<lambda>p. None),
        walk := (\<lambda>p. if p = ''/data'' \<or> p = ''/data/.'' then Some ([], True) else None)\<rparr>"

text \<open>
  A directory \<open>/data\<close> with the file \<open>a\<close> and a second file whose name begins with \<open>a\<close> and
  goes on, after a tab, with the size, owner, group column, access rights, time and
  digest of \<open>a\<close>, each followed by a tab. \<open>tab_world\<close> is the state before \<open>initialize\<close>,
  \<open>tab_world_after\<close> the same state with the verification file that \<open>initialize\<close> has
  written.
\<close>

definition tab_file_a :: dir_entry where
  "tab_file_a =
     \<lparr>entry_path = ''/data/a'',
      stat_result = Some \<lparr>st_size = 5, st_uid = 1000, st_gid = 50, st_mode = 0x81A4\<rparr>,
      last_write = Some ''2022-01-08 10:00:00'',
      is_directory = False, content = ''hello''\<rparr>"

definition long_name :: string where
  "long_name =
     ''/data/a'' @ [tab] @ ''5'' @ [tab] @ ''alice'' @ [tab] @ ''alice'' @ [tab] @ ''644'' @ [tab] @
     ''2022-01-08 10:00:00'' @ [tab] @ ''5D41402ABC4B2A76B9719D911017C592''"

definition tab_file_long :: dir_entry where
  "tab_file_long =
     \<lparr>entry_path = long_name,
      stat_result = Some \<lparr>st_size = 0, st_uid = 1000, st_gid = 50, st_mode = 0x81A4\<rparr>,
      last_write = Some ''2022-01-08 10:00:00'',
      is_directory = False, content = []\<rparr>"

definition written_by_initialize :: "world \<Rightarrow> string option" where
  "written_by_initialize w =
     (case snd (initialize w 0 ''/data'' ''/backup/snap.tsv'' ''/backup/report.txt'' ''md5'') of
        Inl err \<Rightarrow> None
      | Inr (vFile, rFile) \<Rightarrow> Some vFile)"

definition tab_world :: world where
  "tab_world =
     example_world
       \<lparr>fs_exists := (\<lambda>p. p = ''/data''),
        file_text := (\<lambda>p. None),
        walk := (\<lambda>p. if p = ''/data'' then Some ([tab_file_a, tab_file_long], True)
                       else None)\<rparr>"

definition tab_world_after :: world where
  "tab_world_after =
     tab_world
       \<lparr>fs_exists := (\<lambda>p. p = ''/data'' \<or> p = ''/backup/snap.tsv''),
        file_text := (\<lambda>p. if p = ''/backup/snap.tsv'' then written_by_initialize tab_world
                            else None)\<rparr>"




text \<open>A snapshot of two entries, one whose file name contains a tab, and a text of
  five short lines without a header.\<close>

definition example_snapshot :: snapshot where
  "example_snapshot =
     \<lparr>monitored_dir = ''/data'', hash_name = ''md5'',
      records =
        [[''/data/sub/f'', ''1234'', ''alice'', ''alice'', ''644'', ''2022-01-08 10:00:00'',
          ''5D41402ABC4B2A76B9719D911017C592''],
         [''/data/sub'', ''4096'', ''alice'', ''alice'', ''755'', ''2022-01-08 09:00:00'',
          ''directory'']]\<rparr>"

definition tabbed_snapshot :: snapshot where
  "tabbed_snapshot =
     \<lparr>monitored_dir = ''/data'', hash_name = ''md5'',
      records =
        [[''/data/a'' @ [tab] @ ''b'', ''0'', ''alice'', ''alice'', ''644'',
          ''2022-01-08 10:00:00'', ''D41D8CD98F00B204E9800998ECF8427E'']]\<rparr>"

definition headerless_text :: string where
  "headerless_text =
     ''/data/a'' @ [tab] @ ''alice'' @ [tab] @ ''644'' @ [newline] @
     ''/data/b'' @ [tab] @ ''alice'' @ [tab] @ ''644'' @ [newline] @
     ''/data/c'' @ [tab] @ ''alice'' @ [tab] @ ''644'' @ [newline] @
     ''/data/d'' @ [tab] @ ''alice'' @ [tab] @ ''644'' @ [newline] @
     ''/data/e'' @ [tab] @ ''alice'' @ [tab] @ ''644'' @ [newline]"

text \<open>
  Two sets of rows for the comparison. The baseline holds \<open>a.txt\<close> and \<open>b.txt\<close>; in the
  current state \<open>a.txt\<close> has other access rights, \<open>b.txt\<close> is gone and \<open>c.txt\<close> has
  appeared. Each list is in the order in which the rows are stored.
\<close>

definition baseline_items :: "(string \<times> string) list" where
  "baseline_items =
     [(''/data/b.txt'',
       join_tab [''/data/b.txt'', ''7'', ''alice'', ''alice'', ''644'', ''2022-01-08 10:00:00'',
                 ''9D5ED678FE57BCCA610140957AFAB571'']),
      (''/data/a.txt'',
       join_tab [''/data/a.txt'', ''5'', ''alice'', ''alice'', ''644'', ''2022-01-08 10:00:00'',
                 ''5D41402ABC4B2A76B9719D911017C592''])]"

definition current_items :: "(string \<times> string) list" where
  "current_items =
     [(''/data/c.txt'',
       join_tab [''/data/c.txt'', ''9'', ''alice'', ''alice'', ''644'', ''2022-01-09 08:30:00'',
                 ''0CC175B9C0F1B6A831C399E269772661'']),
      (''/data/a.txt'',
       join_tab [''/data/a.txt'', ''5'', ''alice'', ''alice'', ''600'', ''2022-01-08 10:00:00'',
                 ''5D41402ABC4B2A76B9719D911017C592''])]"


section \<open>Properties\<close>

subsection \<open>Searching and the checks on the paths\<close>

lemma find_str_None_iff: "find_str s t = None \<longleftrightarrow> \<not> sublist t s"
  by (induction s) (auto simp: sublist_Cons_right)

lemma check_paths_cases:
  "check_paths d v r =
     (if sublist d v \<or> sublist d r \<or> v = r then Some PathConflictError
      else if \<not> sublist ''.txt'' r then Some ReportNotTxt else None)"
  using find_str_None_iff [of v d] find_str_None_iff [of r d] find_str_None_iff [of r "''.txt''"]
  by (auto simp: check_paths_def)

subsection \<open>The errors of the loops\<close>

lemma createTsvString_error:
  "createTsvString w info e h = (evs, info', Inl err) \<Longrightarrow>
     err = UnsupportedAlgorithmError \<or> err = NullDereference \<or> err = FilesystemException"
  by (auto simp: createTsvString_def hashFile_def Let_def split: if_splits option.splits)

lemma init_loop_error:
  "init_loop w h info es (vFile, fileNum, dirNum) = (evs, Inl err) \<Longrightarrow>
     err = UnsupportedAlgorithmError \<or> err = NullDereference \<or> err = FilesystemException"
proof (induction es arbitrary: info vFile fileNum dirNum evs)
  case Nil
  then show ?case by simp
next
  case (Cons e es)
  from Cons.prems show ?case
    by (auto split: prod.splits sum.splits dest: createTsvString_error Cons.IH)
qed

lemma verify_loop_error:
  "verify_loop w h info es (d, fileNum, dirNum) = (evs, Inl err) \<Longrightarrow>
     err = UnsupportedAlgorithmError \<or> err = NullDereference \<or> err = FilesystemException"
proof (induction es arbitrary: info d fileNum dirNum evs)
  case Nil
  then show ?case by simp
next
  case (Cons e es)
  from Cons.prems show ?case
    by (auto split: prod.splits sum.splits dest: createTsvString_error Cons.IH)
qed

lemma changed_loop_error:
  "changed_loop vd dd fs = Inl err \<Longrightarrow> err = UndefinedBehaviour"
  by (induction fs) (auto simp: changed_warnings_def field_warnings_def split: sum.splits if_splits)

lemma warnings_error: "warnings vd dd = Inl err \<Longrightarrow> err = UndefinedBehaviour"
  by (auto simp: warnings_def split: sum.splits dest: changed_loop_error)

lemma initialize_conflict:
  assumes "fs_exists w dirPath"
    and "sublist dirPath vFilePath \<or> sublist dirPath rFilePath \<or> vFilePath = rFilePath"
  shows "initialize w seconds dirPath vFilePath rFilePath hashF =
           ([Exists dirPath], Inl PathConflictError)"
  using assms by (simp add: initialize_def check_paths_cases)

lemma verify_conflict:
  assumes "fs_exists w vFilePath"
    and "read_header (open_read w vFilePath) = Inr (dirPath, hashF, line, vFile)"
    and "sublist dirPath vFilePath \<or> sublist dirPath rFilePath \<or> vFilePath = rFilePath"
  shows "verify w vFilePath rFilePath =
           ([Exists vFilePath, OpenRead vFilePath], Inl PathConflictError)"
  using assms by (simp add: verify_def check_paths_cases)

lemma initialize_after_checks:
  assumes "fs_exists w dirPath" "check_paths dirPath vFilePath rFilePath = None"
  shows "snd (initialize w seconds dirPath vFilePath rFilePath hashF) \<noteq> Inl ReportNotTxt
       \<and> snd (initialize w seconds dirPath vFilePath rFilePath hashF) \<noteq> Inl PathConflictError"
  using assms
  by (auto simp: initialize_def split: option.splits prod.splits sum.splits dest: init_loop_error)

lemma verify_after_checks:
  assumes "fs_exists w vFilePath"
    and "read_header (open_read w vFilePath) = Inr (dirPath, hashF, line, vFile)"
    and "check_paths dirPath vFilePath rFilePath = None"
  shows "snd (verify w vFilePath rFilePath) \<noteq> Inl ReportNotTxt
       \<and> snd (verify w vFilePath rFilePath) \<noteq> Inl PathConflictError"
  using assms
  by (auto simp: verify_def Let_def split: option.splits prod.splits sum.splits
           dest: verify_loop_error warnings_error)

subsection \<open>Reading lines\<close>

lemma getline_line:
  assumes "newline \<notin> set l"
  shows "getline \<lparr>unread = l @ newline # r, good = True\<rparr> x =
           (True, l, \<lparr>unread = r, good = True\<rparr>)"
proof -
  have ne: "\<And>c. c \<in> set l \<Longrightarrow> c \<noteq> newline"
    using assms by auto
  have t: "takeWhile (\<lambda>c. c \<noteq> newline) (l @ newline # r) = l"
    using ne by simp
  have d: "dropWhile (\<lambda>c. c \<noteq> newline) (l @ newline # r) = newline # r"
    using ne by simp
  show ?thesis
    by (simp add: getline_def t d)
qed

lemma getline_end:
  "getline \<lparr>unread = [], good = True\<rparr> x = (False, [], \<lparr>unread = [], good = False\<rparr>)"
  by (simp add: getline_def)

lemma read_header_lines:
  assumes "newline \<notin> set l1" "newline \<notin> set l2" "newline \<notin> set l3" "newline \<notin> set l4"
  shows "read_header (text_stream (l1 @ newline # l2 @ newline # l3 @ newline # l4 @ newline # rest)) =
           (if length l2 < 11 \<or> length l3 < 15 then Inl OutOfRangeException
            else Inr (drop 11 l2, drop 15 l3, l4, text_stream rest))"
  using assms
  by (simp add: read_header_def text_stream_def getline_line substr_def)

lemma read_rows_lines:
  assumes "\<forall>l \<in> set rows. newline \<notin> set l"
  shows "read_rows (text_stream (concat (map (\<lambda>l. l @ [newline]) rows))) x d =
           fold (\<lambda>l. assign (line_key l) l) rows d"
  using assms
proof (induction rows arbitrary: x d)
  case Nil
  show ?case
    by (subst read_rows.simps) (simp add: text_stream_def getline_end)
next
  case (Cons l rows)
  then have l: "newline \<notin> set l" and rows: "\<forall>l \<in> set rows. newline \<notin> set l"
    by simp_all
  have "read_rows (text_stream (concat (map (\<lambda>l. l @ [newline]) (l # rows)))) x d =
        read_rows (text_stream (concat (map (\<lambda>l. l @ [newline]) rows))) l
          (assign (line_key l) l d)"
    by (subst read_rows.simps) (simp add: text_stream_def getline_line [OF l] line_key_def)
  then show ?case
    using Cons.IH [OF rows] by simp
qed

lemma dict_of_lines:
  "fold (\<lambda>l. assign (line_key l) l) rows [] = dict_of (map (\<lambda>l. (line_key l, l)) rows)"
  by (simp add: dict_of_def fold_map comp_def)

lemma decode_lines:
  assumes "newline \<notin> set l1" "newline \<notin> set l2" "newline \<notin> set l3" "newline \<notin> set l4"
    and "\<forall>l \<in> set rows. newline \<notin> set l"
  shows "decode (text_stream (l1 @ newline # l2 @ newline # l3 @ newline # l4 @ newline #
                   concat (map (\<lambda>l. l @ [newline]) rows))) =
           (if length l2 < 11 \<or> length l3 < 15 then Inl OutOfRangeException
            else Inr (drop 11 l2, drop 15 l3, dict_of (map (\<lambda>l. (line_key l, l)) rows)))"
  using assms
  by (simp add: decode_def read_header_lines read_rows_lines dict_of_lines)

lemma read_header_error: "read_header s = Inl e \<Longrightarrow> e = OutOfRangeException"
  by (auto simp: read_header_def substr_def Let_def split: prod.splits if_splits sum.splits)

lemma decode_error: "decode s = Inl e \<Longrightarrow> e = OutOfRangeException"
  by (auto simp: decode_def split: sum.splits dest: read_header_error)

subsection \<open>Splitting and joining at tabs\<close>

lemma split_loop_not_Nil: "split_loop cs temp \<noteq> []"
  by (induction cs arbitrary: temp) auto

lemma split_loop_join: "join_tab (split_loop cs temp) = temp @ cs"
proof (induction cs arbitrary: temp)
  case Nil
  show ?case by simp
next
  case (Cons c cs)
  show ?case
  proof (cases "c = tab")
    case True
    obtain f fs where "split_loop cs [] = f # fs"
      using split_loop_not_Nil [of cs "[]"] by (auto simp: neq_Nil_conv)
    then show ?thesis
      using True Cons.IH [of "[]"] by simp
  next
    case False
    then show ?thesis
      using Cons.IH [of "temp @ [c]"] by simp
  qed
qed

lemma join_split_tab: "join_tab (split_tab l) = l"
  by (simp add: split_tab_def split_loop_join)

lemma split_loop_no_tab: "tab \<notin> set f \<Longrightarrow> split_loop f temp = [temp @ f]"
  by (induction f arbitrary: temp) auto

lemma split_loop_field:
  "tab \<notin> set f \<Longrightarrow> split_loop (f @ tab # cs) temp = (temp @ f) # split_loop cs []"
  by (induction f arbitrary: temp) auto

lemma split_join_tab:
  assumes "fs \<noteq> []" "\<forall>f \<in> set fs. tab \<notin> set f"
  shows "split_tab (join_tab fs) = fs"
  using assms unfolding split_tab_def
proof (induction fs rule: join_tab.induct)
  case 1
  then show ?case by simp
next
  case (2 f)
  then show ?case by (simp add: split_loop_no_tab)
next
  case (3 f g fs)
  then show ?case by (simp add: split_loop_field)
qed

lemma find_char_append:
  "c \<notin> set f \<Longrightarrow> find_char (f @ c # cs) c = Some (length f)"
  by (induction f) auto

lemma find_char_None: "c \<notin> set f \<Longrightarrow> find_char f c = None"
  by (induction f) auto

lemma line_key_join_tab:
  assumes "fs \<noteq> []" "tab \<notin> set (hd fs)"
  shows "line_key (join_tab fs) = hd fs"
proof (cases fs rule: join_tab.cases)
  case 1
  with assms show ?thesis by simp
next
  case (2 f)
  with assms show ?thesis by (simp add: line_key_def substr0_def find_char_None)
next
  case (3 f g gs)
  with assms show ?thesis by (simp add: line_key_def substr0_def find_char_append)
qed

lemma line_key_hd_split: "line_key l = hd (split_tab l)"
proof -
  have "\<And>temp. hd (split_loop l temp) = temp @ substr0 l (find_char l tab)"
  proof (induction l)
    case Nil
    show ?case by (simp add: substr0_def)
  next
    case (Cons c l)
    show ?case
      using Cons.IH [of "temp @ [c]"]
      by (auto simp: substr0_def split: option.splits)
  qed
  from this [of "[]"] show ?thesis
    by (simp add: line_key_def split_tab_def)
qed

lemma newline_join_tab:
  "\<forall>f \<in> set fs. newline \<notin> set f \<Longrightarrow> newline \<notin> set (join_tab fs)"
  by (induction fs rule: join_tab.induct) (auto simp: tab_def newline_def)

subsection \<open>Dictionaries\<close>

lemma map_of_assign: "map_of (assign k v d) = (map_of d)(k \<mapsto> v)"
  by (induction d) (auto simp: fun_eq_iff)

lemma assign_keys: "fst ` set (assign k v d) = insert k (fst ` set d)"
proof -
  have "fst ` set (assign k v d) = dom (map_of (assign k v d))"
    by (simp add: dom_map_of_conv_image_fst)
  also have "\<dots> = insert k (dom (map_of d))"
    by (simp add: map_of_assign)
  finally show ?thesis
    by (simp add: dom_map_of_conv_image_fst)
qed

lemma assign_sorted:
  "sorted_wrt (<) (map fst d) \<Longrightarrow> sorted_wrt (<) (map fst (assign k v d))"
proof (induction d)
  case Nil
  show ?case by simp
next
  case (Cons kv d)
  obtain k' v' where kv: "kv = (k', v')" by (cases kv)
  have keys: "set (map fst (assign k v d)) = insert k (set (map fst d))"
    using assign_keys [of k v d] by simp
  from Cons show ?case
    unfolding kv using keys by (auto simp: less_le)
qed

lemma fold_assign_sorted:
  "sorted_wrt (<) (map fst d) \<Longrightarrow> sorted_wrt (<) (map fst (fold (\<lambda>(k, v). assign k v) kvs d))"
  by (induction kvs arbitrary: d) (auto simp: assign_sorted)

lemma dict_of_sorted: "sorted_wrt (<) (map fst (dict_of kvs))"
  by (simp add: dict_of_def fold_assign_sorted)

lemma dict_of_distinct: "distinct (map fst (dict_of kvs))"
  using dict_of_sorted [of kvs] by (simp add: strict_sorted_iff)

lemma dict_of_member: "(k, l) \<in> set (dict_of kvs) \<longleftrightarrow> map_of (dict_of kvs) k = Some l"
  using dict_of_distinct [of kvs] by simp

lemma assign_fresh:
  "k \<notin> fst ` set d \<Longrightarrow> assign k v d = insort_key fst (k, v) d"
  by (induction d) auto

lemma fold_assign_fresh:
  assumes "distinct (map fst kvs)" "fst ` set kvs \<inter> fst ` set d = {}"
  shows "fold (\<lambda>(k, v). assign k v) kvs d = fold (insort_key fst) kvs d"
  using assms
proof (induction kvs arbitrary: d)
  case Nil
  show ?case by simp
next
  case (Cons kv kvs)
  obtain k v where kv: "kv = (k, v)" by (cases kv)
  have fresh: "k \<notin> fst ` set d"
    using Cons.prems kv by auto
  have "fst ` set kvs \<inter> fst ` set (insort_key fst (k, v) d) = {}"
    using Cons.prems kv by (auto simp: set_insort_key)
  then show ?case
    using Cons.IH [of "insort_key fst (k, v) d"] Cons.prems kv assign_fresh [OF fresh]
    by simp
qed

lemma dict_of_sort_key:
  assumes "distinct (map fst kvs)"
  shows "dict_of kvs = sort_key fst kvs"
proof -
  have "inj_on fst (set kvs)"
    using assms by (simp add: distinct_map)
  then have "sort_key fst kvs = fold (insort_key fst) kvs []"
    by (rule sort_key_conv_fold)
  then show ?thesis
    using fold_assign_fresh [OF assms, of "[]"] by (simp add: dict_of_def)
qed

lemma insort_key_map:
  "insort_key f (g x) (map g xs) = map g (insort_key (\<lambda>y. f (g y)) x xs)"
  by (induction xs) auto

lemma sort_key_map: "sort_key f (map g xs) = map g (sort_key (\<lambda>y. f (g y)) xs)"
  by (induction xs) (auto simp: insort_key_map)

subsection \<open>The headers of the example files\<close>

lemma example_header:
  "read_header (open_read example_world ''/backup/snap.tsv'') =
     Inr (''/data'', ''md5'',
          ''File Name'' @ [tab] @ ''File Size'' @ [tab] @ ''Owner'' @ [tab] @ ''Group'' @ [tab] @
          ''Access Rights'' @ [tab] @ ''Last Modified'' @ [tab] @ ''Hash'',
          \<lparr>unread = [], good = True\<rparr>)"
  by code_simp

lemma example_header_inside:
  "read_header (open_read example_world ''/data/snap.tsv'') =
     Inr (''/data'', ''md5'',
          ''File Name'' @ [tab] @ ''File Size'' @ [tab] @ ''Owner'' @ [tab] @ ''Group'' @ [tab] @
          ''Access Rights'' @ [tab] @ ''Last Modified'' @ [tab] @ ''Hash'',
          \<lparr>unread = [], good = True\<rparr>)"
  by code_simp

lemma example_header_sha256:
  "read_header (open_read example_world ''/backup/sha256.tsv'') =
     Inr (''/data'', ''sha256'',
          ''File Name'' @ [tab] @ ''File Size'' @ [tab] @ ''Owner'' @ [tab] @ ''Group'' @ [tab] @
          ''Access Rights'' @ [tab] @ ''Last Modified'' @ [tab] @ ''Hash'',
          \<lparr>unread = [], good = True\<rparr>)"
  by code_simp

subsection \<open>The form of the report path\<close>

text \<open>
  Claim C5 says that no run is rejected on account of the form of the report path. The
  source rejects one: in \<open>initialize\<close> with the directory \<open>/data\<close> present, the
  verification file \<open>/backup/snap.tsv\<close> and the report file \<open>/backup/report.log\<close>, the run
  ends with the message that the report file is not a \<open>.txt\<close> file, and nothing has been
  written.
\<close>

theorem report_log_rejected_counterexample:
  "initialize example_world 0 ''/data'' ''/backup/snap.tsv'' ''/backup/report.log'' ''md5'' =
     ([Exists ''/data''], Inl ReportNotTxt)"
  by code_simp

text \<open>
  Claim C5 as amended: when the directory (for \<open>verify\<close>: the verification file) exists
  and the checks for a path conflict pass, a run is rejected with the error about the
  \<open>.txt\<close> extension exactly when the report path does not contain the four characters
  \<open>.txt\<close> anywhere, and the rejection comes before any file is written; a report path
  that contains them is never rejected with this error.
\<close>

theorem report_path_without_txt_rejected:
  "(fs_exists w dirPath \<and> \<not> sublist dirPath vFilePath \<and> \<not> sublist dirPath rFilePath \<and>
    vFilePath \<noteq> rFilePath \<longrightarrow>
      (if sublist ''.txt'' rFilePath
       then snd (initialize w seconds dirPath vFilePath rFilePath hashF) \<noteq> Inl ReportNotTxt
       else initialize w seconds dirPath vFilePath rFilePath hashF =
              ([Exists dirPath], Inl ReportNotTxt)))
   \<and>
   (fs_exists w vFilePath \<and>
    read_header (open_read w vFilePath) = Inr (dirPath, hashF, line, vFile) \<and>
    \<not> sublist dirPath vFilePath \<and> \<not> sublist dirPath rFilePath \<and> vFilePath \<noteq> rFilePath \<longrightarrow>
      (if sublist ''.txt'' rFilePath
       then snd (verify w vFilePath rFilePath) \<noteq> Inl ReportNotTxt
       else verify w vFilePath rFilePath =
              ([Exists vFilePath, OpenRead vFilePath], Inl ReportNotTxt)))"
proof (intro conjI impI)
  assume a: "fs_exists w dirPath \<and> \<not> sublist dirPath vFilePath \<and> \<not> sublist dirPath rFilePath \<and>
    vFilePath \<noteq> rFilePath"
  show "if sublist ''.txt'' rFilePath
       then snd (initialize w seconds dirPath vFilePath rFilePath hashF) \<noteq> Inl ReportNotTxt
       else initialize w seconds dirPath vFilePath rFilePath hashF =
              ([Exists dirPath], Inl ReportNotTxt)"
  proof (cases "sublist ''.txt'' rFilePath")
    case True
    with a have "check_paths dirPath vFilePath rFilePath = None"
      by (simp add: check_paths_cases)
    with a True show ?thesis
      using initialize_after_checks [of w dirPath vFilePath rFilePath seconds hashF] by simp
  next
    case False
    with a show ?thesis
      by (simp add: initialize_def check_paths_cases)
  qed
next
  assume a: "fs_exists w vFilePath \<and>
    read_header (open_read w vFilePath) = Inr (dirPath, hashF, line, vFile) \<and>
    \<not> sublist dirPath vFilePath \<and> \<not> sublist dirPath rFilePath \<and> vFilePath \<noteq> rFilePath"
  show "if sublist ''.txt'' rFilePath
       then snd (verify w vFilePath rFilePath) \<noteq> Inl ReportNotTxt
       else verify w vFilePath rFilePath =
              ([Exists vFilePath, OpenRead vFilePath], Inl ReportNotTxt)"
  proof (cases "sublist ''.txt'' rFilePath")
    case True
    with a have "check_paths dirPath vFilePath rFilePath = None"
      by (simp add: check_paths_cases)
    with a True show ?thesis
      using verify_after_checks [of w vFilePath dirPath hashF line vFile rFilePath] by simp
  next
    case False
    with a show ?thesis
      by (simp add: verify_def check_paths_cases)
  qed
qed

theorem report_path_without_txt_rejected_witness:
  "snd (initialize example_world 0 ''/data'' ''/backup/snap.tsv'' ''/backup/report.txt'' ''md5'')
     \<noteq> Inl ReportNotTxt
   \<and> initialize example_world 0 ''/data'' ''/backup/snap.tsv'' ''/backup/report'' ''md5'' =
       ([Exists ''/data''], Inl ReportNotTxt)
   \<and> snd (verify example_world ''/backup/snap.tsv'' ''/backup/report.txt'') \<noteq> Inl ReportNotTxt
   \<and> verify example_world ''/backup/snap.tsv'' ''/backup/report'' =
       ([Exists ''/backup/snap.tsv'', OpenRead ''/backup/snap.tsv''], Inl ReportNotTxt)"
proof -
  have ex: "fs_exists example_world ''/data''" "fs_exists example_world ''/backup/snap.tsv''"
    by (simp_all add: example_world_def)
  have paths:
    "\<not> sublist ''/data'' ''/backup/snap.tsv''"
    "\<not> sublist ''/data'' ''/backup/report.txt''"
    "\<not> sublist ''/data'' ''/backup/report''"
    "sublist ''.txt'' ''/backup/report.txt''"
    "\<not> sublist ''.txt'' ''/backup/report''"
    by (simp_all add: sublist_code(3))
  show ?thesis
    using
      report_path_without_txt_rejected [of example_world "''/data''" "''/backup/snap.tsv''"
        "''/backup/report.txt''" 0 "''md5''" _ _]
      report_path_without_txt_rejected [of example_world "''/data''" "''/backup/snap.tsv''"
        "''/backup/report''" 0 "''md5''" _ _]
      ex paths example_header
    by simp
qed

subsection \<open>Path conflicts\<close>

text \<open>
  Claim C6 says that every run in which the verification file or the report file is a
  sub-path of the monitored directory, or in which the two paths are equal, fails with
  \<open>PathConflictError\<close> before any input or output on the snapshot or the report file.
  Two runs show otherwise. The test of the source looks for the text of the directory
  path inside the text of the other path: with the monitored directory given as
  \<open>/data/.\<close> and the verification file \<open>/data/snap.tsv\<close>, which lies in that directory,
  \<open>initialize\<close> finds no conflict and creates the file. \<open>verify\<close> learns the directory from
  the verification file: with the verification file \<open>/data/snap.tsv\<close>, whose header names
  \<open>/data\<close>, the file has been opened and its header read when the run fails.
\<close>

theorem path_conflict_counterexample:
  "sub_path ''/data/.'' ''/data/snap.tsv''
   \<and> take 2 (fst (initialize dot_world 0 ''/data/.'' ''/data/snap.tsv'' ''/backup/report.txt'' ''md5'')) =
       [Exists ''/data/.'', OpenWrite ''/data/snap.tsv'']
   \<and> snd (initialize dot_world 0 ''/data/.'' ''/data/snap.tsv'' ''/backup/report.txt'' ''md5'') \<noteq>
       Inl PathConflictError
   \<and> verify example_world ''/data/snap.tsv'' ''/backup/report.txt'' =
       ([Exists ''/data/snap.tsv'', OpenRead ''/data/snap.tsv''], Inl PathConflictError)"
  by code_simp

text \<open>
  Claim C6 as amended: an initialization run whose monitored directory exists, and in
  which the path of the monitored directory, as it is written, is a prefix of the path
  of the verification file or of the report file, as they are written, or in which the
  two paths are equal, fails with \<open>PathConflictError\<close> having done nothing but the
  existence test; in particular with the directory \<open>/data\<close> and the verification file
  \<open>/data/snap.tsv\<close>. A verification run whose verification file exists and has a header
  that can be read fails in the same situations with \<open>PathConflictError\<close>, having opened
  the verification file and read its header, and before it walks the directory or opens
  the report file. Nothing is said about a file that lies in the directory under another
  spelling of the directory's path.
\<close>

theorem path_conflict_rejected:
  "(fs_exists w dirPath \<and>
    (prefix dirPath vFilePath \<or> prefix dirPath rFilePath \<or> vFilePath = rFilePath) \<longrightarrow>
      initialize w seconds dirPath vFilePath rFilePath hashF =
        ([Exists dirPath], Inl PathConflictError))
   \<and>
   (fs_exists w vFilePath \<and>
    read_header (open_read w vFilePath) = Inr (dirPath, hashF, line, vFile) \<and>
    (prefix dirPath vFilePath \<or> prefix dirPath rFilePath \<or> vFilePath = rFilePath) \<longrightarrow>
      verify w vFilePath rFilePath =
        ([Exists vFilePath, OpenRead vFilePath], Inl PathConflictError))"
  using initialize_conflict [of w dirPath vFilePath rFilePath seconds hashF]
    verify_conflict [of w vFilePath dirPath hashF line vFile rFilePath]
  by auto

theorem path_conflict_rejected_witness:
  "initialize example_world 0 ''/data'' ''/data/snap.tsv'' ''/backup/report.txt'' ''md5'' =
     ([Exists ''/data''], Inl PathConflictError)
   \<and> verify example_world ''/backup/snap.tsv'' ''/backup/snap.tsv'' =
     ([Exists ''/backup/snap.tsv'', OpenRead ''/backup/snap.tsv''], Inl PathConflictError)"
proof -
  have ex: "fs_exists example_world ''/data''" "fs_exists example_world ''/backup/snap.tsv''"
    by (simp_all add: example_world_def)
  have sub: "prefix ''/data'' ''/data/snap.tsv''"
    by simp
  show ?thesis
    using
      path_conflict_rejected [of example_world "''/data''" "''/data/snap.tsv''"
        "''/backup/report.txt''" 0 "''md5''" _ _]
      path_conflict_rejected [of example_world "''/data''" "''/backup/snap.tsv''"
        "''/backup/snap.tsv''" 0 "''md5''" _ _]
      ex sub example_header
    by simp
qed

text \<open>
  Claim C10: the test is a substring test. A verification file or a report file whose
  path does not start with the path of the monitored directory, but contains it
  somewhere, is rejected as a path conflict all the same, by \<open>initialize\<close> and by
  \<open>verify\<close>; for instance the report file \<open>/backup/data-report.txt\<close> with the monitored
  directory \<open>/data\<close>.
\<close>

theorem substring_counts_as_conflict:
  "(fs_exists w dirPath \<and>
    (sublist dirPath vFilePath \<and> \<not> prefix dirPath vFilePath \<or>
     sublist dirPath rFilePath \<and> \<not> prefix dirPath rFilePath) \<longrightarrow>
      initialize w seconds dirPath vFilePath rFilePath hashF =
        ([Exists dirPath], Inl PathConflictError))
   \<and>
   (fs_exists w vFilePath \<and>
    read_header (open_read w vFilePath) = Inr (dirPath, hashF, line, vFile) \<and>
    (sublist dirPath vFilePath \<and> \<not> prefix dirPath vFilePath \<or>
     sublist dirPath rFilePath \<and> \<not> prefix dirPath rFilePath) \<longrightarrow>
      verify w vFilePath rFilePath =
        ([Exists vFilePath, OpenRead vFilePath], Inl PathConflictError))"
  using initialize_conflict [of w dirPath vFilePath rFilePath seconds hashF]
    verify_conflict [of w vFilePath dirPath hashF line vFile rFilePath]
  by auto

theorem substring_counts_as_conflict_witness:
  "\<not> prefix ''/data'' ''/backup/data-report.txt''
   \<and> initialize example_world 0 ''/data'' ''/backup/snap.tsv'' ''/backup/data-report.txt'' ''md5'' =
     ([Exists ''/data''], Inl PathConflictError)
   \<and> verify example_world ''/backup/snap.tsv'' ''/backup/data-report.txt'' =
     ([Exists ''/backup/snap.tsv'', OpenRead ''/backup/snap.tsv''], Inl PathConflictError)"
proof -
  have ex: "fs_exists example_world ''/data''" "fs_exists example_world ''/backup/snap.tsv''"
    by (simp_all add: example_world_def)
  have sub: "sublist ''/data'' ''/backup/data-report.txt''"
    "\<not> prefix ''/data'' ''/backup/data-report.txt''"
    by (simp_all add: sublist_code(3))
  show ?thesis
    using
      substring_counts_as_conflict [of example_world "''/data''" "''/backup/snap.tsv''"
        "''/backup/data-report.txt''" 0 "''md5''" _ _]
      ex sub example_header
    by simp
qed

subsection \<open>An unknown hash function\<close>

lemma createTsvString_unregistered:
  assumes "\<not> is_directory e" "h \<noteq> ''md5''" "h \<noteq> ''sha1''"
    and "getpwuid w (st_uid (stat_call info e)) \<noteq> None" "last_write e \<noteq> None"
  shows "createTsvString w info e h =
           ([Stat (entry_path e), ReadContent (entry_path e)], stat_call info e,
            Inl UnsupportedAlgorithmError)"
  using assms by (auto simp: createTsvString_def hashFile_def Let_def)

lemma createTsvString_directory:
  assumes "is_directory e"
    and "getpwuid w (st_uid (stat_call info e)) \<noteq> None" "last_write e \<noteq> None"
  shows "\<exists>row. createTsvString w info e h = ([Stat (entry_path e)], stat_call info e, Inr row)"
  using assms by (auto simp: createTsvString_def Let_def)

lemma createTsvString_directory_error:
  assumes "is_directory e" "createTsvString w info e h = (evs, info', Inl err)"
  shows "err \<noteq> UnsupportedAlgorithmError"
  using assms by (auto simp: createTsvString_def Let_def split: option.splits)

lemma verify_loop_directories:
  assumes "list_all is_directory es"
    and "verify_loop w h info es (d, fileNum, dirNum) = (evs, r)"
  shows "r \<noteq> Inl UnsupportedAlgorithmError"
  using assms
proof (induction es arbitrary: info d fileNum dirNum evs r)
  case Nil
  then show ?case by auto
next
  case (Cons e es)
  then have e: "is_directory e" and es: "list_all is_directory es"
    by simp_all
  obtain evs1 info' r1 where c: "createTsvString w info e h = (evs1, info', r1)"
    by (metis prod_cases3)
  show ?case
  proof (cases r1)
    case (Inl err)
    with c Cons.prems(2) have "r = Inl err"
      by simp
    moreover have "err \<noteq> UnsupportedAlgorithmError"
      using createTsvString_directory_error [OF e] c Inl by simp
    ultimately show ?thesis
      by simp
  next
    case (Inr row)
    obtain evs2 r2 where l:
      "verify_loop w h info' es
         (assign (entry_path e) (filter (\<lambda>c. c \<noteq> newline) row) d, fileNum, Suc dirNum) =
       (evs2, r2)"
      by (metis surj_pair)
    with c Inr e Cons.prems(2) have "r = r2"
      by simp
    with Cons.IH [OF es l] show ?thesis
      by simp
  qed
qed

lemma verify_loop_unregistered:
  assumes "h \<noteq> ''md5''" "h \<noteq> ''sha1''"
    and "\<not> list_all is_directory es"
    and "examined w info (takeWhile is_directory es @ take 1 (dropWhile is_directory es))"
  shows "verify_loop w h info es (d, fileNum, dirNum) =
           (map (\<lambda>e. Stat (entry_path e)) (takeWhile is_directory es) @
            [Stat (entry_path (hd (dropWhile is_directory es))),
             ReadContent (entry_path (hd (dropWhile is_directory es)))],
            Inl UnsupportedAlgorithmError)"
  using assms(3,4)
proof (induction es arbitrary: info d fileNum dirNum)
  case Nil
  then show ?case by simp
next
  case (Cons e es)
  show ?case
  proof (cases "is_directory e")
    case True
    with Cons.prems have ex: "getpwuid w (st_uid (stat_call info e)) \<noteq> None"
      "last_write e \<noteq> None"
      "examined w (stat_call info e)
         (takeWhile is_directory es @ take 1 (dropWhile is_directory es))"
      and nd: "\<not> list_all is_directory es"
      by simp_all
    obtain row where row:
      "createTsvString w info e h = ([Stat (entry_path e)], stat_call info e, Inr row)"
      using createTsvString_directory [OF True ex(1,2)] by blast
    show ?thesis
      using True row Cons.IH [OF nd ex(3)] by simp
  next
    case False
    with Cons.prems have ex: "getpwuid w (st_uid (stat_call info e)) \<noteq> None"
      "last_write e \<noteq> None"
      by simp_all
    show ?thesis
      using False createTsvString_unregistered [OF False assms(1,2) ex] by simp
  qed
qed

text \<open>
  Claim C4 says that a run with a hash function that is not registered fails before the
  walk, in initialization and in verification. \<open>verify\<close> takes the name from the header
  of the verification file and never looks at it; \<open>hashFile\<close> does, after it has read
  the first file of the walk. With a header that names \<open>sha256\<close> the directory \<open>/data/sub\<close>
  and the file \<open>/data/sub/f\<close> have been examined and the file has been read when the run
  fails.
\<close>

theorem verification_stats_before_hash_check_counterexample:
  "main example_world 0
     \<lparr>opt_mode = 2, opt_dirPath = [], opt_vFilePath = ''/backup/sha256.tsv'',
      opt_rFilePath = ''/backup/report.txt'', opt_hashF = []\<rparr> =
     ([Exists ''/backup/sha256.tsv'', OpenRead ''/backup/sha256.tsv'', Iterate ''/data'',
       Stat ''/data/sub'', Stat ''/data/sub/f'', ReadContent ''/data/sub/f''],
      Inl UnsupportedAlgorithmError)"
  by code_simp

text \<open>
  Claim C4 as amended. An initialization run through \<open>main\<close> whose four arguments are
  present and whose hash function is neither \<open>md5\<close> nor \<open>sha1\<close> fails with
  \<open>UnsupportedAlgorithmError\<close> before any access to the file system. A verification run
  through \<open>main\<close> that passes the checks on the paths, with a header whose hash function
  is neither of the two, does not fail with this error when every entry of the walk is a
  directory. When the walk has an entry that is not a directory, and the entries up to
  and including the first such entry can be examined (\<open>getpwuid\<close> finds the owner and the
  last write time can be read), the run fails with \<open>UnsupportedAlgorithmError\<close> at that
  entry, after the entries before it and the entry itself have been passed to \<open>stat\<close> and
  the file has been read.
\<close>

theorem unregistered_hash_name:
  "(opt_mode opts = 1 \<and> opt_dirPath opts \<noteq> [] \<and> opt_vFilePath opts \<noteq> [] \<and>
    opt_rFilePath opts \<noteq> [] \<and> opt_hashF opts \<noteq> [] \<and>
    opt_hashF opts \<noteq> ''md5'' \<and> opt_hashF opts \<noteq> ''sha1'' \<longrightarrow>
      main w seconds opts = ([], Inl UnsupportedAlgorithmError))
   \<and>
   (opt_mode opts = 2 \<and> opt_vFilePath opts \<noteq> [] \<and> opt_rFilePath opts \<noteq> [] \<and>
    fs_exists w (opt_vFilePath opts) \<and>
    read_header (open_read w (opt_vFilePath opts)) = Inr (dirPath, hashF, line, vFile) \<and>
    check_paths dirPath (opt_vFilePath opts) (opt_rFilePath opts) = None \<and>
    walk w dirPath = Some (entries, complete) \<and> hashF \<noteq> ''md5'' \<and> hashF \<noteq> ''sha1'' \<longrightarrow>
      (if list_all is_directory entries
       then snd (main w seconds opts) \<noteq> Inl UnsupportedAlgorithmError
       else examined w zero_info
              (takeWhile is_directory entries @ take 1 (dropWhile is_directory entries)) \<longrightarrow>
            main w seconds opts =
              ([Exists (opt_vFilePath opts), OpenRead (opt_vFilePath opts), Iterate dirPath] @
               map (\<lambda>e. Stat (entry_path e)) (takeWhile is_directory entries) @
               [Stat (entry_path (hd (dropWhile is_directory entries))),
                ReadContent (entry_path (hd (dropWhile is_directory entries)))],
               Inl UnsupportedAlgorithmError)))"
proof (intro conjI impI)
  assume "opt_mode opts = 1 \<and> opt_dirPath opts \<noteq> [] \<and> opt_vFilePath opts \<noteq> [] \<and>
    opt_rFilePath opts \<noteq> [] \<and> opt_hashF opts \<noteq> [] \<and>
    opt_hashF opts \<noteq> ''md5'' \<and> opt_hashF opts \<noteq> ''sha1''"
  then show "main w seconds opts = ([], Inl UnsupportedAlgorithmError)"
    by (simp add: main_def)
next
  assume a: "opt_mode opts = 2 \<and> opt_vFilePath opts \<noteq> [] \<and> opt_rFilePath opts \<noteq> [] \<and>
    fs_exists w (opt_vFilePath opts) \<and>
    read_header (open_read w (opt_vFilePath opts)) = Inr (dirPath, hashF, line, vFile) \<and>
    check_paths dirPath (opt_vFilePath opts) (opt_rFilePath opts) = None \<and>
    walk w dirPath = Some (entries, complete) \<and> hashF \<noteq> ''md5'' \<and> hashF \<noteq> ''sha1''"
  then have h: "hashF \<noteq> ''md5''" "hashF \<noteq> ''sha1''"
    by simp_all
  have m: "main w seconds opts =
             (case verify w (opt_vFilePath opts) (opt_rFilePath opts) of
                (evs, Inl err) \<Rightarrow> (evs, Inl err)
              | (evs, Inr rFile) \<Rightarrow> (evs, Inr (Verified rFile)))"
    using a by (simp add: main_def)
  show "if list_all is_directory entries
       then snd (main w seconds opts) \<noteq> Inl UnsupportedAlgorithmError
       else examined w zero_info
              (takeWhile is_directory entries @ take 1 (dropWhile is_directory entries)) \<longrightarrow>
            main w seconds opts =
              ([Exists (opt_vFilePath opts), OpenRead (opt_vFilePath opts), Iterate dirPath] @
               map (\<lambda>e. Stat (entry_path e)) (takeWhile is_directory entries) @
               [Stat (entry_path (hd (dropWhile is_directory entries))),
                ReadContent (entry_path (hd (dropWhile is_directory entries)))],
               Inl UnsupportedAlgorithmError)"
  proof (cases "list_all is_directory entries")
    case True
    obtain evs r where loop: "verify_loop w hashF zero_info entries ([], 0, 0) = (evs, r)"
      by (cases "verify_loop w hashF zero_info entries ([], 0, 0)") auto
    have "r \<noteq> Inl UnsupportedAlgorithmError"
      using verify_loop_directories [OF True loop] .
    with True a loop show ?thesis
      unfolding m
      by (auto simp: verify_def Let_def split: prod.splits sum.splits dest: warnings_error)
  next
    case False
    show ?thesis
    proof (simp only: False if_False, rule impI)
      assume ex: "examined w zero_info
              (takeWhile is_directory entries @ take 1 (dropWhile is_directory entries))"
      show "main w seconds opts =
              ([Exists (opt_vFilePath opts), OpenRead (opt_vFilePath opts), Iterate dirPath] @
               map (\<lambda>e. Stat (entry_path e)) (takeWhile is_directory entries) @
               [Stat (entry_path (hd (dropWhile is_directory entries))),
                ReadContent (entry_path (hd (dropWhile is_directory entries)))],
               Inl UnsupportedAlgorithmError)"
        unfolding m
        using a verify_loop_unregistered [OF h False ex, of "[]" 0 0]
        by (simp add: verify_def Let_def)
    qed
  qed
qed

theorem unregistered_hash_name_witness:
  "main example_world 0
     \<lparr>opt_mode = 1, opt_dirPath = ''/data'', opt_vFilePath = ''/backup/snap.tsv'',
      opt_rFilePath = ''/backup/report.txt'', opt_hashF = ''sha256''\<rparr> =
     ([], Inl UnsupportedAlgorithmError)
   \<and> main example_world 0
     \<lparr>opt_mode = 2, opt_dirPath = [], opt_vFilePath = ''/backup/sha256.tsv'',
      opt_rFilePath = ''/backup/report.txt'', opt_hashF = []\<rparr> =
     ([Exists ''/backup/sha256.tsv'', OpenRead ''/backup/sha256.tsv'', Iterate ''/data'',
       Stat ''/data/sub'', Stat ''/data/sub/f'', ReadContent ''/data/sub/f''],
      Inl UnsupportedAlgorithmError)"
proof -
  have ex: "fs_exists example_world ''/backup/sha256.tsv''"
    "walk example_world ''/data'' = Some ([example_subdir, example_file], True)"
    by (simp_all add: example_world_def)
  have chk: "check_paths ''/data'' ''/backup/sha256.tsv'' ''/backup/report.txt'' = None"
    by (simp add: check_paths_cases sublist_code(3))
  have ents: "is_directory example_subdir" "\<not> is_directory example_file"
    "entry_path example_subdir = ''/data/sub''" "entry_path example_file = ''/data/sub/f''"
    by (simp_all add: example_subdir_def example_file_def)
  have exd: "examined example_world zero_info [example_subdir, example_file]"
    by (simp add: example_world_def example_subdir_def example_file_def stat_call_def)
  show ?thesis
    using
      unregistered_hash_name [where w = example_world and seconds = 0 and opts =
        "\<lparr>opt_mode = 1, opt_dirPath = ''/data'', opt_vFilePath = ''/backup/snap.tsv'',
          opt_rFilePath = ''/backup/report.txt'', opt_hashF = ''sha256''\<rparr>"]
      unregistered_hash_name [where w = example_world and seconds = 0 and opts =
        "\<lparr>opt_mode = 2, opt_dirPath = [], opt_vFilePath = ''/backup/sha256.tsv'',
          opt_rFilePath = ''/backup/report.txt'', opt_hashF = []\<rparr>"
        and dirPath = "''/data''" and hashF = "''sha256''"
        and entries = "[example_subdir, example_file]" and complete = True]
      ex chk ents exd example_header_sha256
    by simp
qed

subsection \<open>The group column\<close>

text \<open>
  Claim C1 says that the group field of a row is the name of the group of the entry. The
  source fetches the group entry and then appends the name of the owner a second time.
  For the file \<open>/data/sub/f\<close>, which belongs to the user 1000, \<open>alice\<close>, and to the group
  50, \<open>staff\<close>, the fourth field of the row reads \<open>alice\<close>.
\<close>

theorem group_field_holds_owner_name:
  "map_sum id (\<lambda>row. split_tab (filter (\<lambda>c. c \<noteq> newline) row))
     (snd (snd (createTsvString example_world zero_info example_file ''md5''))) =
     Inr [''/data/sub/f'', ''1234'', ''alice'', ''alice'', ''644'', ''2022-01-08 10:00:00'',
          ''5D41402ABC4B2A76B9719D911017C592'']
   \<and> map_option st_uid (stat_result example_file) = Some 1000
   \<and> map_option st_gid (stat_result example_file) = Some 50
   \<and> getpwuid example_world 1000 = Some ''alice''
   \<and> getgrgid example_world 50 = Some ''staff''"
  by code_simp

subsection \<open>Decoding a verification file\<close>

text \<open>
  Claim C2 says that decoding fails with \<open>MalformedSnapshotError\<close> when the 4-line header
  is missing or when a data line does not have exactly 7 fields. The source checks
  neither. A text of five lines of three fields each, without any header, is decoded:
  the directory and the hash function are the tails of its second and third line, and
  its fifth line becomes a row. The empty text ends in the exception \<open>std::out_of_range\<close>
  of \<open>substr\<close>, which nothing catches.
\<close>

theorem decode_headerless_counterexample:
  "decode (text_stream headerless_text) =
     Inr (''ce'' @ [tab] @ ''644'', ''44'', [(''/data/e'', ''/data/e'' @ [tab] @ ''alice'' @ [tab] @ ''644'')])
   \<and> decode (text_stream []) = Inl OutOfRangeException"
  by code_simp

text \<open>
  Claim C2 as amended: decoding never fails with \<open>MalformedSnapshotError\<close>. On a text of
  at least four lines, each ended by a newline, it fails exactly when the second line
  has fewer than 11 characters or the third fewer than 15, and then with the uncaught
  \<open>std::out_of_range\<close>; otherwise it returns what follows the first 11 characters of the
  second line as the directory, what follows the first 15 characters of the third as the
  hash function, and every line after the fourth, whatever the number of its fields,
  stored under the text before its first tab.
\<close>

theorem decode_checks_only_line_lengths:
  "decode s \<noteq> Inl MalformedSnapshotError \<and>
   (newline \<notin> set l1 \<and> newline \<notin> set l2 \<and> newline \<notin> set l3 \<and> newline \<notin> set l4 \<and>
    (\<forall>l \<in> set rows. newline \<notin> set l) \<longrightarrow>
      decode (text_stream (l1 @ newline # l2 @ newline # l3 @ newline # l4 @ newline #
                concat (map (\<lambda>l. l @ [newline]) rows))) =
        (if length l2 < 11 \<or> length l3 < 15 then Inl OutOfRangeException
         else Inr (drop 11 l2, drop 15 l3, dict_of (map (\<lambda>l. (line_key l, l)) rows))))"
  using decode_error [of s MalformedSnapshotError] decode_lines [of l1 l2 l3 l4 rows]
  by auto

theorem decode_checks_only_line_lengths_witness:
  "decode (text_stream (''SIV'' @ newline # ''Directory: /data'' @ newline #
             ''bad'' @ newline # ''columns'' @ newline #
             concat (map (\<lambda>l. l @ [newline]) [''/data/e'', ''/data/f'' @ [tab] @ ''1'']))) =
     Inl OutOfRangeException
   \<and> decode (text_stream (''SIV'' @ newline # ''Anything at all'' @ newline #
             ''Hash Function: md5'' @ newline # ''columns'' @ newline #
             concat (map (\<lambda>l. l @ [newline]) [''/data/e'', ''/data/f'' @ [tab] @ ''1'']))) =
     Inr ('' all'', ''md5'',
          dict_of (map (\<lambda>l. (line_key l, l)) [''/data/e'', ''/data/f'' @ [tab] @ ''1'']))"
proof -
  have nl: "newline \<notin> set ''SIV''" "newline \<notin> set ''Directory: /data''"
    "newline \<notin> set ''bad''" "newline \<notin> set ''columns''"
    "newline \<notin> set ''Anything at all''" "newline \<notin> set ''Hash Function: md5''"
    "\<forall>l \<in> set [''/data/e'', ''/data/f'' @ [tab] @ ''1'']. newline \<notin> set l"
    by (simp_all add: newline_def tab_def)
  show ?thesis
    using
      decode_checks_only_line_lengths [of _ "''SIV''" "''Directory: /data''" "''bad''"
        "''columns''" "[''/data/e'', ''/data/f'' @ [tab] @ ''1'']"]
      decode_checks_only_line_lengths [of _ "''SIV''" "''Anything at all''"
        "''Hash Function: md5''" "''columns''" "[''/data/e'', ''/data/f'' @ [tab] @ ''1'']"]
      nl
    by simp
qed

subsection \<open>Encoding and decoding\<close>

lemma vfile_header_lines:
  "vfile_header d h @ rest =
     ''SIV Verification File'' @ newline # (''Directory: '' @ d) @ newline #
     (''Hash Function: '' @ h) @ newline #
     (''File Name'' @ [tab] @ ''File Size'' @ [tab] @ ''Owner'' @ [tab] @ ''Group'' @ [tab] @
      ''Access Rights'' @ [tab] @ ''Last Modified'' @ [tab] @ ''Hash'') @ newline # rest"
  by (simp add: vfile_header_def endl_def)

lemma decode_vfile:
  assumes "newline \<notin> set d" "newline \<notin> set h" "\<forall>l \<in> set rows. newline \<notin> set l"
  shows "decode (text_stream (vfile_header d h @ concat (map (\<lambda>l. l @ [newline]) rows))) =
           Inr (d, h, dict_of (map (\<lambda>l. (line_key l, l)) rows))"
proof -
  have nl: "newline \<notin> set ''SIV Verification File''"
    "newline \<notin> set (''Directory: '' @ d)" "newline \<notin> set (''Hash Function: '' @ h)"
    "newline \<notin> set (''File Name'' @ [tab] @ ''File Size'' @ [tab] @ ''Owner'' @ [tab] @
       ''Group'' @ [tab] @ ''Access Rights'' @ [tab] @ ''Last Modified'' @ [tab] @ ''Hash'')"
    using assms by (simp_all add: newline_def tab_def)
  show ?thesis
    unfolding vfile_header_lines
    using decode_lines [OF nl assms(3)] by simp
qed

text \<open>
  Claim C3 says that decoding the encoding of any snapshot gives the snapshot back. The
  format has no escaping: a record whose path contains a tab comes back with 8 fields,
  the path cut at the tab.
\<close>

theorem decode_encode_tab_counterexample:
  "decode_snapshot (encode tabbed_snapshot) =
     Inr \<lparr>monitored_dir = ''/data'', hash_name = ''md5'',
          records =
            [[''/data/a'', ''b'', ''0'', ''alice'', ''alice'', ''644'', ''2022-01-08 10:00:00'',
              ''D41D8CD98F00B204E9800998ECF8427E'']]\<rparr>
   \<and> records tabbed_snapshot =
       [[''/data/a'' @ [tab] @ ''b'', ''0'', ''alice'', ''alice'', ''644'',
         ''2022-01-08 10:00:00'', ''D41D8CD98F00B204E9800998ECF8427E'']]"
  by code_simp

text \<open>
  Claim C3 as amended: for a snapshot whose directory and hash function contain no
  newline, whose records have 7 fields that contain neither a tab nor a newline, and
  whose paths are pairwise different, decoding the encoding gives back the directory,
  the hash function and every record with its 7 fields as they were, the records in the
  ascending order of their paths.
\<close>

theorem decode_encode_roundtrip:
  assumes "newline \<notin> set (monitored_dir s)" "newline \<notin> set (hash_name s)"
    and "\<forall>fs \<in> set (records s). length fs = 7 \<and> (\<forall>f \<in> set fs. tab \<notin> set f \<and> newline \<notin> set f)"
    and "distinct (map hd (records s))"
  shows "decode_snapshot (encode s) = Inr (s\<lparr>records := sort_key hd (records s)\<rparr>)"
proof -
  let ?g = "\<lambda>fs. (hd fs, join_tab fs)"
  have ne: "\<forall>fs \<in> set (records s). fs \<noteq> []"
    using assms(3) by auto
  have "newline \<notin> set (join_tab fs)" if "fs \<in> set (records s)" for fs
  proof -
    from that assms(3) have "\<forall>f \<in> set fs. newline \<notin> set f"
      by auto
    then show ?thesis
      by (rule newline_join_tab)
  qed
  then have rows: "\<forall>l \<in> set (map join_tab (records s)). newline \<notin> set l"
    by auto
  have keys: "map (\<lambda>x. (line_key (join_tab x), join_tab x)) (records s) = map ?g (records s)"
    using assms(3) ne by (auto simp: line_key_join_tab)
  have dist: "distinct (map fst (map ?g (records s)))"
    using assms(4) by (simp add: comp_def)
  have "decode (text_stream (encode s)) =
          Inr (monitored_dir s, hash_name s, dict_of (map ?g (records s)))"
    using decode_vfile [OF assms(1,2) rows]
    by (simp add: encode_def comp_def keys)
  also have "dict_of (map ?g (records s)) = map ?g (sort_key hd (records s))"
    using dict_of_sort_key [OF dist] by (simp add: sort_key_map)
  finally have dec: "decode (text_stream (encode s)) =
      Inr (monitored_dir s, hash_name s, map ?g (sort_key hd (records s)))" .
  have "decoded_records (map ?g (sort_key hd (records s))) = sort_key hd (records s)"
    using assms(3) ne by (auto simp: decoded_records_def comp_def split_join_tab intro!: map_idI)
  then show ?thesis
    by (simp add: decode_snapshot_def dec)
qed

theorem decode_encode_roundtrip_witness:
  "decode_snapshot (encode example_snapshot) =
     Inr \<lparr>monitored_dir = ''/data'', hash_name = ''md5'',
          records =
            [[''/data/sub'', ''4096'', ''alice'', ''alice'', ''755'', ''2022-01-08 09:00:00'',
              ''directory''],
             [''/data/sub/f'', ''1234'', ''alice'', ''alice'', ''644'', ''2022-01-08 10:00:00'',
              ''5D41402ABC4B2A76B9719D911017C592'']]\<rparr>"
proof -
  have h: "newline \<notin> set (monitored_dir example_snapshot)"
    "newline \<notin> set (hash_name example_snapshot)"
    "\<forall>fs \<in> set (records example_snapshot).
       length fs = 7 \<and> (\<forall>f \<in> set fs. tab \<notin> set f \<and> newline \<notin> set f)"
    "distinct (map hd (records example_snapshot))"
    by (simp_all add: example_snapshot_def newline_def tab_def)
  have srt: "sort_key hd (records example_snapshot) =
     [[''/data/sub'', ''4096'', ''alice'', ''alice'', ''755'', ''2022-01-08 09:00:00'',
              ''directory''],
             [''/data/sub/f'', ''1234'', ''alice'', ''alice'', ''644'', ''2022-01-08 10:00:00'',
              ''5D41402ABC4B2A76B9719D911017C592'']]"
    by code_simp
  show ?thesis
    using decode_encode_roundtrip [OF h] srt
    by (simp add: example_snapshot_def)
qed

subsection \<open>Comparing two dictionaries\<close>

lemma snapshot_rows_iff:
  "snapshot_rows d \<longleftrightarrow> (\<forall>(k, l) \<in> set d. length (split_tab l) = 7 \<and> hd (split_tab l) = k)"
  by (simp add: snapshot_rows_def list_all_iff)

lemma dict_at_Some: "map_of d k = Some l \<Longrightarrow> dict_at d k = l"
  by (simp add: dict_at_def)

lemma changedFiles_iff:
  assumes "distinct (map fst vd)"
  shows "p \<in> set (changedFiles vd dd) \<longleftrightarrow>
           (\<exists>vl dl. map_of vd p = Some vl \<and> map_of dd p = Some dl \<and> vl \<noteq> dl)"
  using assms by (force simp: changedFiles_def split: option.splits)

lemma deletedFiles_iff:
  assumes "distinct (map fst vd)"
  shows "p \<in> set (deletedFiles vd dd) \<longleftrightarrow> (map_of vd p \<noteq> None \<and> map_of dd p = None)"
  using assms by (force simp: deletedFiles_def)

lemma newFiles_iff:
  assumes "distinct (map fst dd)"
  shows "p \<in> set (newFiles vd dd) \<longleftrightarrow> (map_of dd p \<noteq> None \<and> map_of vd p = None)"
  using assms by (force simp: newFiles_def)

lemma sorted_keys_filter:
  "sorted_wrt (<) (map fst d) \<Longrightarrow> sorted_wrt (<) (map fst (filter P d))"
  by (simp add: sorted_wrt_map sorted_wrt_filter)

lemma report_lists_sorted:
  assumes "sorted_wrt (<) (map fst vd)" "sorted_wrt (<) (map fst dd)"
  shows "sorted_wrt (<) (deletedFiles vd dd)" "sorted_wrt (<) (newFiles vd dd)"
    "sorted_wrt (<) (changedFiles vd dd)"
  using assms by (simp_all add: deletedFiles_def newFiles_def changedFiles_def sorted_keys_filter)

lemma list7_equal:
  assumes "length v = 7" "length d = 7" "hd v = hd d"
    and "v ! 1 = d ! 1" "v ! 2 = d ! 2" "v ! 3 = d ! 3" "v ! 4 = d ! 4" "v ! 5 = d ! 5" "v ! 6 = d ! 6"
  shows "v = (d :: 'a list)"
proof (rule nth_equalityI)
  show "length v = length d"
    using assms by simp
next
  fix i assume "i < length v"
  then have "i = 0 \<or> i = 1 \<or> i = 2 \<or> i = 3 \<or> i = 4 \<or> i = 5 \<or> i = 6"
    using assms(1) by arith
  moreover have "v ! 0 = d ! 0"
    using assms(1,2,3) by (cases v; cases d) auto
  ultimately show "v ! i = d ! i"
    using assms by auto
qed

lemma field_warnings_nonempty:
  assumes "length v = 7" "length d = 7" "hd v = hd d" "v \<noteq> d"
  shows "\<exists>ws. field_warnings p v d = Inr ws \<and> ws \<noteq> []"
proof -
  have "v ! 1 \<noteq> d ! 1 \<or> v ! 2 \<noteq> d ! 2 \<or> v ! 3 \<noteq> d ! 3 \<or> v ! 4 \<noteq> d ! 4 \<or> v ! 5 \<noteq> d ! 5 \<or>
        v ! 6 \<noteq> d ! 6"
    using list7_equal [OF assms(1,2,3)] assms(4) by blast
  then show ?thesis
    using assms(1,2) by (auto simp: field_warnings_def)
qed








lemma field_warnings_exact:
  assumes "7 \<le> length v" "7 \<le> length d"
  shows "field_warnings p v d = Inr (differing_messages p v d)"
  using assms
  by (simp add: field_warnings_def differing_messages_def all_field_messages_def)

lemma differing_messages_nonempty:
  assumes "length v = 7" "length d = 7" "hd v = hd d" "v \<noteq> d"
  shows "differing_messages p v d \<noteq> []"
  using field_warnings_nonempty [OF assms, of p] field_warnings_exact [of v d p] assms(1,2)
  by auto

lemma report_lists_distinct:
  "distinct (deletedFiles (dict_of b) (dict_of c) @ newFiles (dict_of b) (dict_of c) @
             changedFiles (dict_of b) (dict_of c))"
proof -
  let ?vd = "dict_of b" and ?dd = "dict_of c"
  have d: "distinct (map fst ?vd)" "distinct (map fst ?dd)"
    by (rule dict_of_distinct)+
  have s: "sorted_wrt (<) (map fst ?vd)" "sorted_wrt (<) (map fst ?dd)"
    by (rule dict_of_sorted)+
  have "distinct (deletedFiles ?vd ?dd)" "distinct (newFiles ?vd ?dd)"
    "distinct (changedFiles ?vd ?dd)"
    using report_lists_sorted [OF s] by (simp_all add: strict_sorted_iff)
  moreover have "set (deletedFiles ?vd ?dd) \<inter> set (newFiles ?vd ?dd) = {}"
    "set (deletedFiles ?vd ?dd) \<inter> set (changedFiles ?vd ?dd) = {}"
    "set (newFiles ?vd ?dd) \<inter> set (changedFiles ?vd ?dd) = {}"
    using d by (auto simp: deletedFiles_iff newFiles_iff changedFiles_iff)
  ultimately show ?thesis
    by auto
qed

text \<open>
  Claim C7 says that for every pair of snapshots no path is in two of the three sets and
  every path listed as changed has a discrepancy in one of its six fields. The directory
  \<open>/data\<close> holds the file \<open>a\<close> and a file whose name repeats, after \<open>a\<close> and a tab, the
  fields of the row of \<open>a\<close>. \<open>initialize\<close> writes the verification file, nothing in the
  directory changes, and \<open>verify\<close> reads the file back: both rows are stored under the
  key \<open>/data/a\<close>, the second replaces the first, and \<open>/data/a\<close> is counted as changed
  although none of the six comparisons finds a difference. The report counts one changed
  file and has no message about it.
\<close>

theorem unchanged_tree_changed_without_message_counterexample:
  "walk tab_world_after ''/data'' = walk tab_world ''/data''
   \<and> file_text tab_world_after ''/backup/snap.tsv'' = written_by_initialize tab_world
   \<and> verify tab_world_after ''/backup/snap.tsv'' ''/backup/report.txt'' =
       ([Exists ''/backup/snap.tsv'', OpenRead ''/backup/snap.tsv'', Iterate ''/data'',
         Stat ''/data/a'', ReadContent ''/data/a'', Stat long_name, ReadContent long_name,
         OpenWrite ''/backup/report.txt''],
        Inr (verify_report ''/data'' ''/backup/snap.tsv'' ''md5'' 2 0 0 1 1
               [long_name @ '' is new'']))"
  by code_simp

text \<open>
  Claim C7 as amended: for every pair of dictionaries, no path occurs twice among the
  deleted, the new and the changed files taken together. A path that is listed as changed
  and whose two lines have exactly 7 tab-separated fields each, the first of which is
  the path, differs in at least one of the fields 1 to 6 (size, owner, group, access
  rights, last modification, hash), and its messages are exactly those of the fields
  that differ, of which there is at least one.
\<close>

theorem report_sets_disjoint_changed_has_discrepancy:
  "distinct (deletedFiles (dict_of b) (dict_of c) @ newFiles (dict_of b) (dict_of c) @
             changedFiles (dict_of b) (dict_of c))
   \<and> (p \<in> set (changedFiles (dict_of b) (dict_of c)) \<and>
      length (split_tab (dict_at (dict_of b) p)) = 7 \<and>
      hd (split_tab (dict_at (dict_of b) p)) = p \<and>
      length (split_tab (dict_at (dict_of c) p)) = 7 \<and>
      hd (split_tab (dict_at (dict_of c) p)) = p \<longrightarrow>
        (\<exists>i \<in> {1, 2, 3, 4, 5, 6}.
           split_tab (dict_at (dict_of b) p) ! i \<noteq> split_tab (dict_at (dict_of c) p) ! i)
        \<and> changed_warnings (dict_of b) (dict_of c) p =
            Inr (differing_messages p (split_tab (dict_at (dict_of b) p))
                   (split_tab (dict_at (dict_of c) p)))
        \<and> differing_messages p (split_tab (dict_at (dict_of b) p))
             (split_tab (dict_at (dict_of c) p)) \<noteq> [])"
proof (intro conjI impI)
  show "distinct (deletedFiles (dict_of b) (dict_of c) @ newFiles (dict_of b) (dict_of c) @
             changedFiles (dict_of b) (dict_of c))"
    by (rule report_lists_distinct)
next
  let ?v = "split_tab (dict_at (dict_of b) p)" and ?d = "split_tab (dict_at (dict_of c) p)"
  assume a: "p \<in> set (changedFiles (dict_of b) (dict_of c)) \<and>
      length ?v = 7 \<and> hd ?v = p \<and> length ?d = 7 \<and> hd ?d = p"
  then obtain vl dl where
    l: "map_of (dict_of b) p = Some vl" "map_of (dict_of c) p = Some dl" "vl \<noteq> dl"
    using dict_of_distinct [of b] by (auto simp: changedFiles_iff)
  then have at: "dict_at (dict_of b) p = vl" "dict_at (dict_of c) p = dl"
    by (simp_all add: dict_at_Some)
  have ne: "?v \<noteq> ?d"
    unfolding at using l(3) by (metis join_split_tab)
  from a have len: "length ?v = 7" "length ?d = 7" and hd: "hd ?v = hd ?d"
    by simp_all
  show "\<exists>i \<in> {1, 2, 3, 4, 5, 6}. ?v ! i \<noteq> ?d ! i"
    using list7_equal [OF len hd] ne by blast
  show "changed_warnings (dict_of b) (dict_of c) p = Inr (differing_messages p ?v ?d)"
    using len by (simp add: changed_warnings_def field_warnings_exact)
  show "differing_messages p ?v ?d \<noteq> []"
    by (rule differing_messages_nonempty [OF len hd ne])
qed

theorem report_sets_disjoint_changed_has_discrepancy_witness:
  "distinct (deletedFiles (dict_of baseline_items) (dict_of current_items) @
               newFiles (dict_of baseline_items) (dict_of current_items) @
               changedFiles (dict_of baseline_items) (dict_of current_items))
   \<and> changedFiles (dict_of baseline_items) (dict_of current_items) = [''/data/a.txt'']
   \<and> changed_warnings (dict_of baseline_items) (dict_of current_items) ''/data/a.txt'' =
       Inr [''/data/a.txt access rights are different: 644 600'']"
proof -
  let ?a = "[''/data/a.txt'', ''5'', ''alice'', ''alice'', ''644'', ''2022-01-08 10:00:00'',
             ''5D41402ABC4B2A76B9719D911017C592'']"
  let ?a' = "[''/data/a.txt'', ''5'', ''alice'', ''alice'', ''600'', ''2022-01-08 10:00:00'',
              ''5D41402ABC4B2A76B9719D911017C592'']"
  have ch: "changedFiles (dict_of baseline_items) (dict_of current_items) = [''/data/a.txt'']"
    by code_simp
  have s: "split_tab (dict_at (dict_of baseline_items) ''/data/a.txt'') = ?a"
    "split_tab (dict_at (dict_of current_items) ''/data/a.txt'') = ?a'"
    by code_simp+
  have dm: "differing_messages ''/data/a.txt'' ?a ?a' =
      [''/data/a.txt access rights are different: 644 600'']"
    by code_simp
  show ?thesis
    using report_sets_disjoint_changed_has_discrepancy
      [of baseline_items current_items "''/data/a.txt''"]
    unfolding ch s dm by simp
qed






subsection \<open>What the runs write and index\<close>

text \<open>The verification file that \<open>initialize\<close> writes is the encoding of the snapshot whose
  records are the captured fields of the entries of the walk, and the dictionary that
  \<open>verify\<close> builds from the walk stores the same rows under the paths of the entries.\<close>

lemma createTsvString_row:
  assumes "createTsvString w info e h = (evs, info', Inr row)"
  shows "row = join_tab (captured_fields w info e h) @ [newline] \<and> info' = stat_call info e"
  using assms
  by (auto simp: createTsvString_def hashFile_def captured_fields_def digest_field_def Let_def
           split: if_splits option.splits)

lemma createTsvString_info:
  "fst (snd (createTsvString w info e h)) = stat_call info e"
  by (auto simp: createTsvString_def hashFile_def Let_def split: option.splits)

lemma init_loop_rows:
  assumes "init_loop w h info es (t, fileNum, dirNum) = (evs, Inr (t', fileNum', dirNum'))"
  shows "t' = t @ concat (map (\<lambda>fs. join_tab fs @ [newline]) (captured_records w info es h))"
  using assms
proof (induction es arbitrary: info t fileNum dirNum evs)
  case Nil
  then show ?case by simp
next
  case (Cons e es)
  from Cons.prems obtain evs1 info' row evs2 where
    row: "createTsvString w info e h = (evs1, info', Inr row)" and
    rest: "init_loop w h info' es (t @ row, if is_directory e then fileNum else Suc fileNum,
             if is_directory e then Suc dirNum else dirNum) = (evs2, Inr (t', fileNum', dirNum'))"
    by (auto split: prod.splits sum.splits)
  show ?case
    using Cons.IH [OF rest] createTsvString_row [OF row] by simp
qed

lemma initialize_writes_encode:
  assumes "initialize w seconds dirPath vFilePath rFilePath hashF = (evs, Inr (vFile, rFile))"
  shows "\<exists>es. walk w dirPath = Some (es, True) \<and>
           vFile = encode \<lparr>monitored_dir = dirPath, hash_name = hashF,
                           records = captured_records w zero_info es hashF\<rparr>"
  using assms
  by (auto simp: initialize_def encode_def split: if_splits option.splits prod.splits sum.splits
           dest!: init_loop_rows)

lemma verify_loop_dict:
  assumes "verify_loop w h info es (d, fileNum, dirNum) = (evs, Inr (d', fileNum', dirNum'))"
  shows "d' = fold (\<lambda>(k, l). assign k l)
                (zip (map entry_path es)
                   (map (\<lambda>fs. filter (\<lambda>c. c \<noteq> newline) (join_tab fs))
                      (captured_records w info es h))) d"
  using assms
proof (induction es arbitrary: info d fileNum dirNum evs)
  case Nil
  then show ?case by simp
next
  case (Cons e es)
  from Cons.prems obtain evs1 info' row evs2 where
    row: "createTsvString w info e h = (evs1, info', Inr row)" and
    rest: "verify_loop w h info' es (assign (entry_path e) (filter (\<lambda>c. c \<noteq> newline) row) d,
             if is_directory e then fileNum else Suc fileNum,
             if is_directory e then Suc dirNum else dirNum) = (evs2, Inr (d', fileNum', dirNum'))"
    by (auto split: prod.splits sum.splits)
  show ?case
    using Cons.IH [OF rest] createTsvString_row [OF row] by simp
qed

lemma set_assign: "set (assign k v d) \<subseteq> insert (k, v) (set d)"
  by (induction d) (auto split: if_splits)

lemma set_fold_assign: "set (fold (\<lambda>(k, v). assign k v) kvs d) \<subseteq> set kvs \<union> set d"
proof (induction kvs arbitrary: d)
  case Nil
  show ?case by simp
next
  case (Cons kv kvs)
  obtain k v where kv: "kv = (k, v)" by (cases kv)
  show ?case
    using Cons.IH [of "assign k v d"] set_assign [of k v d] unfolding kv by auto
qed

lemma snapshot_rows_records:
  assumes "\<forall>fs \<in> set recs. length fs = 7 \<and> (\<forall>f \<in> set fs. tab \<notin> set f)"
  shows "snapshot_rows (dict_of (map (\<lambda>fs. (hd fs, join_tab fs)) recs))"
proof -
  have "length (split_tab l) = 7 \<and> hd (split_tab l) = k"
    if "(k, l) \<in> set (dict_of (map (\<lambda>fs. (hd fs, join_tab fs)) recs))" for k l
  proof -
    from that set_fold_assign [of "map (\<lambda>fs. (hd fs, join_tab fs)) recs" "[]"]
    obtain fs where fs: "fs \<in> set recs" "k = hd fs" "l = join_tab fs"
      by (auto simp: dict_of_def)
    with assms have "fs \<noteq> []" "\<forall>f \<in> set fs. tab \<notin> set f" "length fs = 7"
      by auto
    then show ?thesis
      using fs by (simp add: split_join_tab)
  qed
  then show ?thesis
    by (auto simp: snapshot_rows_iff)
qed

end
